theory Spec2Isabelle
  imports Main "HOL-Library.Word"
begin

section \<open>The FunKey menu (src/src/menu.cpp)\<close>

text \<open>
  A shallow embedding of the parts of \<^verbatim>\<open>menu.cpp\<close> that decide the navigation
  state: the system value probe (\<^verbatim>\<open>init_menu_system_values\<close>), the key handlers, the
  scroll animation and the main loop of \<^verbatim>\<open>FK_RunMenu\<close>, and the layout arithmetic of
  \<^verbatim>\<open>draw_progress_bar\<close>.

  The file-level \<^verbatim>\<open>static\<close> variables and the locals of \<^verbatim>\<open>FK_RunMenu\<close> are the
  fields of one record that every function takes and returns. What the program does to
  the outside world (shell commands, log lines, calls of \<^verbatim>\<open>menu_screen_refresh\<close>) is
  appended to the field \<open>effects\<close>, in program order. What the outside world answers
  (does a command start, what does it print) is an argument of the function that asks.
\<close>

subsection \<open>Configuration from menu.h\<close>

text \<open>
  \<^verbatim>\<open>menu.h\<close> is not part of the sources at hand. Its macros are parameters: the
  \<^verbatim>\<open>HAS_MENU_*\<close> switches of the conditional compilation, the two step sizes and the
  number of aspect ratios. \<open>SIZE_T_BITS\<close> is the width of \<^verbatim>\<open>size_t\<close> on the target.
\<close>

record features =
  HAS_MENU_VOLUME :: bool
  HAS_MENU_BRIGHTNESS :: bool
  HAS_MENU_SAVE :: bool
  HAS_MENU_LOAD :: bool
  HAS_MENU_ASPECT_RATIO :: bool
  HAS_MENU_USB :: bool
  HAS_MENU_THEME :: bool
  HAS_MENU_LAUNCHER :: bool
  HAS_MENU_RO_RW :: bool
  HAS_MENU_EXIT :: bool
  HAS_MENU_POWERDOWN :: bool
  STEP_CHANGE_VOLUME :: int
  STEP_CHANGE_BRIGHTNESS :: int
  NB_ASPECT_RATIOS_TYPES :: int
  SIZE_T_BITS :: nat

datatype ENUM_MENU_TYPE =
    MENU_TYPE_VOLUME
  | MENU_TYPE_BRIGHTNESS
  | MENU_TYPE_SAVE
  | MENU_TYPE_LOAD
  | MENU_TYPE_ASPECT_RATIO
  | MENU_TYPE_RO_RW
  | MENU_TYPE_EXIT
  | MENU_TYPE_USB
  | MENU_TYPE_THEME
  | MENU_TYPE_LAUNCHER
  | MENU_TYPE_POWERDOWN

datatype return_code = MENU_RETURN_OK | MENU_RETURN_EXIT | MENU_RETURN_ERROR

definition SCROLL_SPEED_PX :: int where "SCROLL_SPEED_PX = 30"
definition MENU_ZONE_HEIGHT :: int where "MENU_ZONE_HEIGHT = 240"
definition MAX_SAVE_SLOTS :: int where "MAX_SAVE_SLOTS = 9"

subsection \<open>The outside world\<close>

datatype shell_cmd =
    SHELL_CMD_VOLUME_GET
  | SHELL_CMD_VOLUME_SET int
  | SHELL_CMD_BRIGHTNESS_GET
  | SHELL_CMD_BRIGHTNESS_SET int
  | SHELL_CMD_USB_DATA_CONNECTED
  | SHELL_CMD_USB_CHECK_IS_SHARING
  | SHELL_CMD_USB_MOUNT
  | SHELL_CMD_USB_UNMOUNT
  | SHELL_CMD_SET_LAUNCHER_GMENU2X
  | SHELL_CMD_POWERDOWN
  | SHELL_CMD_RO
  | SHELL_CMD_RW

text \<open>
  \<open>Run c\<close>: the command \<open>c\<close> is handed to \<^verbatim>\<open>popen\<close>, \<^verbatim>\<open>system\<close> or
  \<^verbatim>\<open>Utils::executeRawPath\<close>. \<open>Log_failed_to_run\<close> and \<open>Log_wrong_return_value\<close>
  are the two \<^verbatim>\<open>MENU_ERROR_PRINTF\<close> lines. \<open>Screen_refresh\<close> is one call of
  \<^verbatim>\<open>menu_screen_refresh\<close> with its arguments menuItem, prevItem, scroll,
  menu_confirmation, menu_action. \<open>Export_layout i\<close> is
  \<^verbatim>\<open>config->exportCurrentLayout\<close> for the layout at index \<open>i\<close>.
\<close>

datatype effect =
    Run shell_cmd
  | Log_failed_to_run
  | Log_wrong_return_value string shell_cmd
  | Printf_usb_mounted int
  | Screen_refresh int int int bool bool
  | Export_layout int

text \<open>
  Undefined behaviour and uncaught exceptions of the C++ are results of their own:
  an index outside \<^verbatim>\<open>idx_menus\<close>, a division or remainder by zero, the
  \<^verbatim>\<open>std::out_of_range\<close> of \<^verbatim>\<open>layouts_.at\<close>, an \<^verbatim>\<open>atoi\<close> beyond \<^verbatim>\<open>int\<close>.
\<close>

datatype fault = IndexOutOfBounds | DivisionByZero | OutOfRange | IntOverflow

subsection \<open>The menu state\<close>

text \<open>
  \<^verbatim>\<open>idx_menus\<close> with \<^verbatim>\<open>nb_menu_zones\<close> is a list and its length. The C \<^verbatim>\<open>int\<close>
  variables are \<open>int\<close>: the indices, the offsets and the percentages of a session
  stay far inside the range of \<^verbatim>\<open>int\<close> (the one producer of large values,
  \<^verbatim>\<open>atoi\<close>, reports its overflow as a fault), and the model computes the
  mathematical value of every sum. The 0/1 flags are \<open>bool\<close>. \<open>nb_layouts\<close> is
  \<^verbatim>\<open>config->layouts_.size()\<close>. \<open>returned\<close> is set by the \<^verbatim>\<open>return\<close> inside the
  loop (power down), which leaves \<^verbatim>\<open>FK_RunMenu\<close> at once.
\<close>

record menu_state =
  idx_menus :: "ENUM_MENU_TYPE list"
  menuItem :: int
  prevItem :: int
  scroll :: int
  start_scroll :: int
  screen_refresh :: bool
  menu_confirmation :: bool
  stop_menu_loop :: bool
  returnCode :: return_code
  returned :: "return_code option"
  volume_percentage :: int
  brightness_percentage :: int
  savestate_slot :: int
  aspect_ratio :: int
  indexChooseLayout :: int
  nb_layouts :: nat
  usb_data_connected :: bool
  usb_sharing :: bool
  read_write :: bool
  effects :: "effect list"

definition nb_menu_zones :: "menu_state \<Rightarrow> int" where
  "nb_menu_zones s = int (length (idx_menus s))"

definition item_in_range :: "menu_state \<Rightarrow> bool" where
  "item_in_range s \<longleftrightarrow> 0 \<le> menuItem s \<and> menuItem s < nb_menu_zones s"

text \<open>\<^verbatim>\<open>idx_menus[menuItem] == t\<close>, read only where \<open>item_in_range\<close> has been checked.\<close>

definition zone_is :: "menu_state \<Rightarrow> ENUM_MENU_TYPE \<Rightarrow> bool" where
  "zone_is s t \<longleftrightarrow> idx_menus s ! nat (menuItem s) = t"

definition emit :: "effect list \<Rightarrow> menu_state \<Rightarrow> menu_state" where
  "emit es s = s\<lparr>effects := effects s @ es\<rparr>"

text \<open>C's \<^verbatim>\<open>%\<close> on \<^verbatim>\<open>int\<close> truncates towards zero.\<close>

definition c_rem :: "int \<Rightarrow> int \<Rightarrow> int" where
  "c_rem a b = sgn a * (\<bar>a\<bar> mod \<bar>b\<bar>)"

subsection \<open>Left and Right\<close>

text \<open>
  \<^verbatim>\<open>case SDLK_l: case SDLK_LEFT:\<close> (lines 1043 to 1122). \<open>ok\<close> says whether
  \<^verbatim>\<open>popen\<close> returned a stream. The first test compiled in reads
  \<^verbatim>\<open>idx_menus[menuItem]\<close>. The Save branch is compiled under \<^verbatim>\<open>HAS_MENU_LOAD\<close>
  in the source (line 1083).
\<close>

definition handle_left :: "features \<Rightarrow> bool \<Rightarrow> menu_state \<Rightarrow> fault + menu_state" where
  "handle_left cfg ok s =
    (if (HAS_MENU_VOLUME cfg \<or> HAS_MENU_BRIGHTNESS cfg \<or> HAS_MENU_LOAD cfg
          \<or> HAS_MENU_ASPECT_RATIO cfg \<or> HAS_MENU_THEME cfg) \<and> \<not> item_in_range s
     then Inl IndexOutOfBounds
     else if HAS_MENU_VOLUME cfg \<and> zone_is s MENU_TYPE_VOLUME then
       (let v = (if volume_percentage s < STEP_CHANGE_VOLUME cfg then 0
                 else volume_percentage s - STEP_CHANGE_VOLUME cfg)
        in Inr (emit (Run (SHELL_CMD_VOLUME_SET v) # (if ok then [] else [Log_failed_to_run]))
                  (s\<lparr>volume_percentage := v\<rparr>)
                \<lparr>screen_refresh := True\<rparr>))
     else if HAS_MENU_BRIGHTNESS cfg \<and> zone_is s MENU_TYPE_BRIGHTNESS then
       (let v = (if brightness_percentage s < STEP_CHANGE_BRIGHTNESS cfg then 0
                 else brightness_percentage s - STEP_CHANGE_BRIGHTNESS cfg)
        in Inr (emit (Run (SHELL_CMD_BRIGHTNESS_SET v) # (if ok then [] else [Log_failed_to_run]))
                  (s\<lparr>brightness_percentage := v\<rparr>)
                \<lparr>screen_refresh := True\<rparr>))
     else if HAS_MENU_LOAD cfg \<and> zone_is s MENU_TYPE_SAVE then
       Inr (s\<lparr>savestate_slot :=
                 (if savestate_slot s = 0 then MAX_SAVE_SLOTS - 1 else savestate_slot s - 1),
               screen_refresh := True\<rparr>)
     else if HAS_MENU_LOAD cfg \<and> zone_is s MENU_TYPE_LOAD then
       Inr (s\<lparr>savestate_slot :=
                 (if savestate_slot s = 0 then MAX_SAVE_SLOTS - 1 else savestate_slot s - 1),
               screen_refresh := True\<rparr>)
     else if HAS_MENU_ASPECT_RATIO cfg \<and> zone_is s MENU_TYPE_ASPECT_RATIO then
       Inr (s\<lparr>aspect_ratio :=
                 (if aspect_ratio s = 0 then NB_ASPECT_RATIOS_TYPES cfg - 1
                  else aspect_ratio s - 1),
               screen_refresh := True\<rparr>)
     else if HAS_MENU_THEME cfg \<and> zone_is s MENU_TYPE_THEME then
       Inr (s\<lparr>indexChooseLayout :=
                 (if indexChooseLayout s = 0 then int (nb_layouts s) - 1
                  else indexChooseLayout s - 1),
               screen_refresh := True\<rparr>)
     else Inr s)"

text \<open>
  \<^verbatim>\<open>case SDLK_r: case SDLK_RIGHT:\<close> (lines 1124 to 1202). The theme index is
  converted to \<^verbatim>\<open>size_t\<close> before the remainder.
\<close>

definition handle_right :: "features \<Rightarrow> bool \<Rightarrow> menu_state \<Rightarrow> fault + menu_state" where
  "handle_right cfg ok s =
    (if (HAS_MENU_VOLUME cfg \<or> HAS_MENU_BRIGHTNESS cfg \<or> HAS_MENU_SAVE cfg \<or> HAS_MENU_LOAD cfg
          \<or> HAS_MENU_ASPECT_RATIO cfg \<or> HAS_MENU_THEME cfg) \<and> \<not> item_in_range s
     then Inl IndexOutOfBounds
     else if HAS_MENU_VOLUME cfg \<and> zone_is s MENU_TYPE_VOLUME then
       (let v = (if volume_percentage s > 100 - STEP_CHANGE_VOLUME cfg then 100
                 else volume_percentage s + STEP_CHANGE_VOLUME cfg)
        in Inr (emit (Run (SHELL_CMD_VOLUME_SET v) # (if ok then [] else [Log_failed_to_run]))
                  (s\<lparr>volume_percentage := v\<rparr>)
                \<lparr>screen_refresh := True\<rparr>))
     else if HAS_MENU_BRIGHTNESS cfg \<and> zone_is s MENU_TYPE_BRIGHTNESS then
       (let v = (if brightness_percentage s > 100 - STEP_CHANGE_BRIGHTNESS cfg then 100
                 else brightness_percentage s + STEP_CHANGE_BRIGHTNESS cfg)
        in Inr (emit (Run (SHELL_CMD_BRIGHTNESS_SET v) # (if ok then [] else [Log_failed_to_run]))
                  (s\<lparr>brightness_percentage := v\<rparr>)
                \<lparr>screen_refresh := True\<rparr>))
     else if HAS_MENU_SAVE cfg \<and> zone_is s MENU_TYPE_SAVE then
       Inr (s\<lparr>savestate_slot := c_rem (savestate_slot s + 1) MAX_SAVE_SLOTS,
               screen_refresh := True\<rparr>)
     else if HAS_MENU_LOAD cfg \<and> zone_is s MENU_TYPE_LOAD then
       Inr (s\<lparr>savestate_slot := c_rem (savestate_slot s + 1) MAX_SAVE_SLOTS,
               screen_refresh := True\<rparr>)
     else if HAS_MENU_ASPECT_RATIO cfg \<and> zone_is s MENU_TYPE_ASPECT_RATIO then
       (if NB_ASPECT_RATIOS_TYPES cfg = 0 then Inl DivisionByZero
        else Inr (s\<lparr>aspect_ratio := c_rem (aspect_ratio s + 1) (NB_ASPECT_RATIOS_TYPES cfg),
                    screen_refresh := True\<rparr>))
     else if HAS_MENU_THEME cfg \<and> zone_is s MENU_TYPE_THEME then
       (if nb_layouts s = 0 then Inl DivisionByZero
        else Inr (s\<lparr>indexChooseLayout :=
                      ((indexChooseLayout s + 1) mod 2 ^ SIZE_T_BITS cfg) mod int (nb_layouts s),
                    screen_refresh := True\<rparr>))
     else Inr s)"

subsection \<open>Down and Up\<close>

text \<open>
  \<^verbatim>\<open>menuItem++; if (menuItem >= nb_menu_zones) menuItem = 0;\<close> and its mirror image.
\<close>

definition next_item :: "int \<Rightarrow> int \<Rightarrow> int" where
  "next_item n i = (if i + 1 \<ge> n then 0 else i + 1)"

definition prev_item :: "int \<Rightarrow> int \<Rightarrow> int" where
  "prev_item n i = (if i - 1 < 0 then n - 1 else i - 1)"

text \<open>
  \<^verbatim>\<open>case SDLK_d: case SDLK_DOWN:\<close> (lines 985 to 1012). The test for the USB zone
  reads \<^verbatim>\<open>idx_menus\<close> at the index already moved.
\<close>

definition handle_down :: "features \<Rightarrow> menu_state \<Rightarrow> fault + menu_state" where
  "handle_down cfg s =
    (if HAS_MENU_USB cfg \<and> usb_sharing s then Inr s
     else
       (let s1 = s\<lparr>menuItem := next_item (nb_menu_zones s) (menuItem s)\<rparr> in
        if HAS_MENU_USB cfg \<and> \<not> item_in_range s1 then Inl IndexOutOfBounds
        else
          (let s2 = (if HAS_MENU_USB cfg \<and> zone_is s1 MENU_TYPE_USB \<and> \<not> usb_data_connected s1
                     then s1\<lparr>menuItem := next_item (nb_menu_zones s1) (menuItem s1)\<rparr> else s1)
           in Inr (s2\<lparr>start_scroll := 1, menu_confirmation := False, screen_refresh := True\<rparr>))))"

text \<open>\<^verbatim>\<open>case SDLK_u: case SDLK_UP:\<close> (lines 1014 to 1041).\<close>

definition handle_up :: "features \<Rightarrow> menu_state \<Rightarrow> fault + menu_state" where
  "handle_up cfg s =
    (if HAS_MENU_USB cfg \<and> usb_sharing s then Inr s
     else
       (let s1 = s\<lparr>menuItem := prev_item (nb_menu_zones s) (menuItem s)\<rparr> in
        if HAS_MENU_USB cfg \<and> \<not> item_in_range s1 then Inl IndexOutOfBounds
        else
          (let s2 = (if HAS_MENU_USB cfg \<and> zone_is s1 MENU_TYPE_USB \<and> \<not> usb_data_connected s1
                     then s1\<lparr>menuItem := prev_item (nb_menu_zones s1) (menuItem s1)\<rparr> else s1)
           in Inr (s2\<lparr>start_scroll := - 1, menu_confirmation := False, screen_refresh := True\<rparr>))))"

subsection \<open>Cancel, Escape and the quit signal\<close>

text \<open>\<^verbatim>\<open>case SDLK_b:\<close> (lines 962 to 972).\<close>

definition handle_cancel :: "menu_state \<Rightarrow> menu_state" where
  "handle_cancel s =
    (if menu_confirmation s then s\<lparr>menu_confirmation := False, screen_refresh := True\<rparr> else s)"

text \<open>\<^verbatim>\<open>case SDLK_q: case SDLK_ESCAPE:\<close> (lines 974 to 983).\<close>

definition handle_escape :: "features \<Rightarrow> menu_state \<Rightarrow> menu_state" where
  "handle_escape cfg s =
    (if HAS_MENU_USB cfg \<and> usb_sharing s then s else s\<lparr>stop_menu_loop := True\<rparr>)"

text \<open>\<^verbatim>\<open>case SDL_QUIT:\<close> (lines 955 to 958).\<close>

definition handle_quit :: "menu_state \<Rightarrow> menu_state" where
  "handle_quit s = s\<lparr>stop_menu_loop := True, returnCode := MENU_RETURN_EXIT\<rparr>"

subsection \<open>Confirm\<close>

text \<open>
  The call \<^verbatim>\<open>menu_screen_refresh(screen, menuItem, prevItem, scroll, menu_confirmation, 1)\<close>
  that the confirmed branches make before they act.
\<close>

definition refresh_action :: "menu_state \<Rightarrow> effect" where
  "refresh_action s =
     Screen_refresh (menuItem s) (prevItem s) (scroll s) (menu_confirmation s) True"

text \<open>The \<^verbatim>\<open>else\<close> branch that all eight zones share: ask for the confirmation.\<close>

definition ask_confirmation :: "menu_state \<Rightarrow> menu_state" where
  "ask_confirmation s = s\<lparr>menu_confirmation := True, screen_refresh := True\<rparr>"

text \<open>
  \<^verbatim>\<open>case SDLK_a: case SDLK_RETURN:\<close> (lines 1204 to 1404). \<open>ok\<close> is the answer of the one
  command a branch runs: \<^verbatim>\<open>executeRawPath\<close> returned true, \<^verbatim>\<open>popen\<close> returned a
  stream, \<^verbatim>\<open>system\<close> returned a value that is not negative.
\<close>

definition handle_confirm :: "features \<Rightarrow> bool \<Rightarrow> menu_state \<Rightarrow> fault + menu_state" where
  "handle_confirm cfg ok s =
    (if (HAS_MENU_SAVE cfg \<or> HAS_MENU_LOAD cfg \<or> HAS_MENU_USB cfg \<or> HAS_MENU_THEME cfg
          \<or> HAS_MENU_LAUNCHER cfg \<or> HAS_MENU_EXIT cfg \<or> HAS_MENU_POWERDOWN cfg
          \<or> HAS_MENU_RO_RW cfg) \<and> \<not> item_in_range s
     then Inl IndexOutOfBounds
     else if HAS_MENU_SAVE cfg \<and> zone_is s MENU_TYPE_SAVE then
       (if menu_confirmation s
        then Inr (emit [refresh_action s] s\<lparr>stop_menu_loop := True\<rparr>)
        else Inr (ask_confirmation s))
     else if HAS_MENU_LOAD cfg \<and> zone_is s MENU_TYPE_LOAD then
       (if menu_confirmation s
        then Inr (emit [refresh_action s] s\<lparr>stop_menu_loop := True\<rparr>)
        else Inr (ask_confirmation s))
     else if HAS_MENU_USB cfg \<and> zone_is s MENU_TYPE_USB then
       (if menu_confirmation s
        then
          (let s1 = emit [refresh_action s,
                          Run (if usb_sharing s then SHELL_CMD_USB_UNMOUNT
                               else SHELL_CMD_USB_MOUNT)] s;
               s2 = (if \<not> ok then emit [Log_failed_to_run] s1
                     else s1\<lparr>usb_sharing := \<not> usb_sharing s1\<rparr>)
           in Inr (s2\<lparr>menu_confirmation := False, screen_refresh := True\<rparr>))
        else Inr (ask_confirmation s))
     else if HAS_MENU_THEME cfg \<and> zone_is s MENU_TYPE_THEME then
       (if menu_confirmation s
        then
          (if 0 \<le> indexChooseLayout s \<and> indexChooseLayout s < int (nb_layouts s)
           then Inr (emit [refresh_action s, Export_layout (indexChooseLayout s)] s
                     \<lparr>stop_menu_loop := True, returnCode := MENU_RETURN_EXIT\<rparr>)
           else Inl OutOfRange)
        else Inr (ask_confirmation s))
     else if HAS_MENU_LAUNCHER cfg \<and> zone_is s MENU_TYPE_LAUNCHER then
       (if menu_confirmation s
        then Inr (emit [refresh_action s, Run SHELL_CMD_SET_LAUNCHER_GMENU2X] s
                  \<lparr>stop_menu_loop := True, returnCode := MENU_RETURN_EXIT\<rparr>)
        else Inr (ask_confirmation s))
     else if HAS_MENU_EXIT cfg \<and> zone_is s MENU_TYPE_EXIT then
       (if menu_confirmation s
        then Inr (s\<lparr>stop_menu_loop := True, returnCode := MENU_RETURN_EXIT\<rparr>)
        else Inr (ask_confirmation s))
     else if HAS_MENU_POWERDOWN cfg \<and> zone_is s MENU_TYPE_POWERDOWN then
       (if menu_confirmation s
        then Inr (emit (refresh_action s # Run SHELL_CMD_POWERDOWN
                          # (if ok then [] else [Log_failed_to_run])) s
                  \<lparr>returned := Some MENU_RETURN_EXIT\<rparr>)
        else Inr (ask_confirmation s))
     else if HAS_MENU_RO_RW cfg \<and> zone_is s MENU_TYPE_RO_RW then
       (if menu_confirmation s
        then
          (let s1 = emit [refresh_action s,
                          Run (if read_write s then SHELL_CMD_RO else SHELL_CMD_RW)] s;
               s2 = (if \<not> ok then emit [Log_failed_to_run] s1
                     else s1\<lparr>read_write := \<not> read_write s1\<rparr>)
           in Inr (s2\<lparr>menu_confirmation := False, screen_refresh := True\<rparr>))
        else Inr (ask_confirmation s))
     else Inr s)"

subsection \<open>Events\<close>

datatype SDLKey =
    SDLK_b | SDLK_q | SDLK_ESCAPE | SDLK_d | SDLK_DOWN | SDLK_u | SDLK_UP
  | SDLK_l | SDLK_LEFT | SDLK_r | SDLK_RIGHT | SDLK_a | SDLK_RETURN | SDLK_other

datatype SDL_Event = SDL_QUIT | SDL_KEYDOWN SDLKey | SDL_other_event

text \<open>
  One pass of the \<^verbatim>\<open>switch (event.type)\<close> (lines 953 to 1411). An input is an event
  together with the answer of the command its handler may run.
\<close>

fun handle_event :: "features \<Rightarrow> SDL_Event \<times> bool \<Rightarrow> menu_state \<Rightarrow> fault + menu_state" where
  "handle_event cfg (SDL_QUIT, ok) s = Inr (handle_quit s)"
| "handle_event cfg (SDL_KEYDOWN SDLK_b, ok) s = Inr (handle_cancel s)"
| "handle_event cfg (SDL_KEYDOWN SDLK_q, ok) s = Inr (handle_escape cfg s)"
| "handle_event cfg (SDL_KEYDOWN SDLK_ESCAPE, ok) s = Inr (handle_escape cfg s)"
| "handle_event cfg (SDL_KEYDOWN SDLK_d, ok) s = handle_down cfg s"
| "handle_event cfg (SDL_KEYDOWN SDLK_DOWN, ok) s = handle_down cfg s"
| "handle_event cfg (SDL_KEYDOWN SDLK_u, ok) s = handle_up cfg s"
| "handle_event cfg (SDL_KEYDOWN SDLK_UP, ok) s = handle_up cfg s"
| "handle_event cfg (SDL_KEYDOWN SDLK_l, ok) s = handle_left cfg ok s"
| "handle_event cfg (SDL_KEYDOWN SDLK_LEFT, ok) s = handle_left cfg ok s"
| "handle_event cfg (SDL_KEYDOWN SDLK_r, ok) s = handle_right cfg ok s"
| "handle_event cfg (SDL_KEYDOWN SDLK_RIGHT, ok) s = handle_right cfg ok s"
| "handle_event cfg (SDL_KEYDOWN SDLK_a, ok) s = handle_confirm cfg ok s"
| "handle_event cfg (SDL_KEYDOWN SDLK_RETURN, ok) s = handle_confirm cfg ok s"
| "handle_event cfg (SDL_KEYDOWN SDLK_other, ok) s = Inr s"
| "handle_event cfg (SDL_other_event, ok) s = Inr s"

text \<open>
  \<^verbatim>\<open>while (SDL_PollEvent(&event))\<close>: the queue is handled front to back. Setting
  \<^verbatim>\<open>stop_menu_loop\<close> does not leave this loop; the \<^verbatim>\<open>return\<close> of the power down
  does, and so does a fault.
\<close>

fun poll_events :: "features \<Rightarrow> (SDL_Event \<times> bool) list \<Rightarrow> menu_state \<Rightarrow> fault + menu_state" where
  "poll_events cfg [] s = Inr s"
| "poll_events cfg (e # es) s =
     (case handle_event cfg e s of
        Inl f \<Rightarrow> Inl f
      | Inr s' \<Rightarrow> (if returned s' \<noteq> None then Inr s' else poll_events cfg es s'))"

subsection \<open>The scroll effect\<close>

text \<open>Lines 1415 to 1424: one step towards the next zone.\<close>

definition scroll_advance :: "menu_state \<Rightarrow> menu_state" where
  "scroll_advance s =
    (if scroll s > 0 \<or> start_scroll s > 0 then
       s\<lparr>scroll := scroll s + min SCROLL_SPEED_PX (MENU_ZONE_HEIGHT - scroll s),
         start_scroll := 0, screen_refresh := True\<rparr>
     else if scroll s < 0 \<or> start_scroll s < 0 then
       s\<lparr>scroll := scroll s - min SCROLL_SPEED_PX (MENU_ZONE_HEIGHT + scroll s),
         start_scroll := 0, screen_refresh := True\<rparr>
     else s)"

text \<open>Lines 1425 to 1429: the new zone is in place.\<close>

definition scroll_commit :: "menu_state \<Rightarrow> menu_state" where
  "scroll_commit s =
    (if scroll s \<ge> MENU_ZONE_HEIGHT \<or> scroll s \<le> - MENU_ZONE_HEIGHT then
       s\<lparr>prevItem := menuItem s, scroll := 0, screen_refresh := True\<rparr>
     else s)"

definition handle_scroll :: "menu_state \<Rightarrow> menu_state" where
  "handle_scroll s = scroll_commit (scroll_advance s)"

subsection \<open>One frame and the main loop\<close>

text \<open>
  The body of \<^verbatim>\<open>while (!stop_menu_loop)\<close> (lines 950 to 1445) with the event queue
  \<open>q\<close> as it stands when the frame begins: the queue is polled only when no scroll is
  under way, then the scroll effect runs, then the screen is redrawn if asked for. The
  frame pacing (\<^verbatim>\<open>SDL_Delay\<close>) changes no variable and is left out.
\<close>

definition refresh_frame :: "menu_state \<Rightarrow> effect" where
  "refresh_frame s =
     Screen_refresh (menuItem s) (prevItem s) (scroll s) (menu_confirmation s) False"

definition frame :: "features \<Rightarrow> (SDL_Event \<times> bool) list \<Rightarrow> menu_state \<Rightarrow> fault + menu_state" where
  "frame cfg q s =
    (case (if scroll s = 0 then poll_events cfg q s else Inr s) of
       Inl f \<Rightarrow> Inl f
     | Inr s1 \<Rightarrow>
         if returned s1 \<noteq> None then Inr s1
         else
           (let s2 = handle_scroll s1;
                s3 = (if screen_refresh s2 then emit [refresh_frame s2] s2 else s2)
            in Inr (s3\<lparr>screen_refresh := False\<rparr>)))"

text \<open>
  The loop over a finite input: \<open>arrivals\<close> holds, frame by frame, the events that have
  joined the queue since the frame before. Events that arrive during a scroll wait in
  \<open>q\<close>. The loop ends when \<^verbatim>\<open>stop_menu_loop\<close> is set or the function has returned;
  when the input ends first, the state reached is the result.
\<close>

fun menu_loop ::
  "features \<Rightarrow> (SDL_Event \<times> bool) list list \<Rightarrow> (SDL_Event \<times> bool) list \<Rightarrow> menu_state
    \<Rightarrow> fault + menu_state" where
  "menu_loop cfg [] q s = Inr s"
| "menu_loop cfg (arr # arrivals) q s =
     (if stop_menu_loop s then Inr s
      else
        (case frame cfg (q @ arr) s of
           Inl f \<Rightarrow> Inl f
         | Inr s' \<Rightarrow>
             if returned s' \<noteq> None then Inr s'
             else menu_loop cfg arrivals (if scroll s = 0 then [] else q @ arr) s'))"

text \<open>The value \<^verbatim>\<open>FK_RunMenu\<close> hands to its caller once the loop is over.\<close>

definition session_over :: "menu_state \<Rightarrow> bool" where
  "session_over s \<longleftrightarrow> stop_menu_loop s \<or> returned s \<noteq> None"

definition result_code :: "menu_state \<Rightarrow> return_code" where
  "result_code s = (case returned s of Some r \<Rightarrow> r | None \<Rightarrow> returnCode s)"

subsection \<open>The system value probe\<close>

text \<open>
  \<^verbatim>\<open>fgets(res, sizeof(res) - 1, fp)\<close> with \<^verbatim>\<open>char res[100]\<close>: at most 98 characters
  of the stream, up to and including the first newline. At the end of the stream with
  nothing read the buffer keeps what it held (the return value is not looked at).
\<close>

fun fgets_chars :: "nat \<Rightarrow> string \<Rightarrow> string" where
  "fgets_chars 0 cs = []"
| "fgets_chars (Suc n) [] = []"
| "fgets_chars (Suc n) (c # cs) = (if c = CHR 0x0A then [c] else c # fgets_chars n cs)"

definition fgets :: "nat \<Rightarrow> string \<Rightarrow> string \<Rightarrow> string" where
  "fgets n out buf = (if out = [] then buf else fgets_chars (n - 1) out)"

definition is_digit :: "char \<Rightarrow> bool" where
  "is_digit c \<longleftrightarrow> (48::nat) \<le> of_char c \<and> of_char c \<le> (57::nat)"

definition is_space :: "char \<Rightarrow> bool" where
  "is_space c \<longleftrightarrow> of_char c = (32::nat) \<or> ((9::nat) \<le> of_char c \<and> of_char c \<le> (13::nat))"

text \<open>\<^verbatim>\<open>res[0] < '0' || res[0] > '9'\<close>, negated; an empty string starts with its NUL.\<close>

definition first_is_digit :: "string \<Rightarrow> bool" where
  "first_is_digit buf = (case buf of [] \<Rightarrow> False | c # _ \<Rightarrow> is_digit c)"

text \<open>
  \<^verbatim>\<open>atoi\<close> of the C library: white space, an optional sign, then the decimal digits up
  to the first other character. A value outside \<^verbatim>\<open>int\<close> is undefined behaviour.
\<close>

fun digits_value :: "int \<Rightarrow> string \<Rightarrow> int" where
  "digits_value acc [] = acc"
| "digits_value acc (c # cs) =
     (if is_digit c then digits_value (acc * 10 + (int (of_char c) - 48)) cs else acc)"

definition atoi :: "string \<Rightarrow> fault + int" where
  "atoi str =
    (let t = dropWhile is_space str;
         v = (case t of
                [] \<Rightarrow> 0
              | c # cs \<Rightarrow>
                  if c = CHR ''-'' then - digits_value 0 cs
                  else if c = CHR ''+'' then digits_value 0 cs
                  else digits_value 0 t)
     in if - 2147483648 \<le> v \<and> v \<le> 2147483647 then Inr v else Inl IntOverflow)"

text \<open>
  What the outside world answers at the start of a session. \<open>volume_get\<close> and
  \<open>brightness_get\<close> are \<open>None\<close> when \<^verbatim>\<open>popen\<close> returns \<^verbatim>\<open>NULL\<close>, else the output of
  the command. \<open>res0\<close> is what the uninitialised buffer \<^verbatim>\<open>res\<close> happens to hold.
  \<open>background_ok\<close>: \<^verbatim>\<open>SDL_CreateRGBSurface\<close> returned a surface.
\<close>

record probe_env =
  volume_get :: "string option"
  brightness_get :: "string option"
  usb_connected_answer :: bool
  usb_sharing_answer :: bool
  res0 :: string
  currentLayoutIdx :: int
  background_ok :: bool

text \<open>
  Lines 562 to 582 and 583 to 602: the same code for the volume and for the brightness,
  on the one buffer \<^verbatim>\<open>res\<close>. The result is the buffer, the effects and the percentage.
\<close>

definition probe_percentage ::
  "shell_cmd \<Rightarrow> string option \<Rightarrow> string \<Rightarrow> fault + (string \<times> effect list \<times> int)" where
  "probe_percentage cmd answer buf =
    (case answer of
       None \<Rightarrow> Inr (buf, [Run cmd, Log_failed_to_run], 50)
     | Some out \<Rightarrow>
         (let buf' = fgets 99 out buf in
          if \<not> first_is_digit buf'
          then Inr (buf', [Run cmd, Log_wrong_return_value buf' cmd], 50)
          else (case atoi buf' of
                  Inl f \<Rightarrow> Inl f
                | Inr v \<Rightarrow> Inr (buf', [Run cmd], v))))"

text \<open>Lines 622 to 628: the first USB zone, if there is one.\<close>

fun find_usb :: "ENUM_MENU_TYPE list \<Rightarrow> nat \<Rightarrow> nat option" where
  "find_usb [] i = None"
| "find_usb (z # zs) i = (if z = MENU_TYPE_USB then Some i else find_usb zs (Suc i))"

text \<open>Lines 604 to 630.\<close>

definition probe_usb :: "probe_env \<Rightarrow> menu_state \<Rightarrow> fault + menu_state" where
  "probe_usb env s =
    (let s1 = emit [Run SHELL_CMD_USB_DATA_CONNECTED, Run SHELL_CMD_USB_CHECK_IS_SHARING]
                (s\<lparr>usb_data_connected := usb_connected_answer env,
                   usb_sharing := usb_sharing_answer env\<rparr>)
     in if \<not> usb_data_connected s1 \<and> \<not> item_in_range s1 then Inl IndexOutOfBounds
        else
          (let s2 = (if \<not> usb_data_connected s1
                     then (if zone_is s1 MENU_TYPE_USB
                           then s1\<lparr>usb_sharing := False, menuItem := 0\<rparr>
                           else s1\<lparr>usb_sharing := False\<rparr>)
                     else s1)
           in if usb_sharing s2
              then (case find_usb (idx_menus s2) 0 of
                      None \<Rightarrow> Inr s2
                    | Some i \<Rightarrow> Inr (emit [Printf_usb_mounted (int i)] (s2\<lparr>menuItem := int i\<rparr>)))
              else Inr s2))"

text \<open>\<^verbatim>\<open>init_menu_system_values\<close> (lines 555 to 631).\<close>

definition init_menu_system_values :: "features \<Rightarrow> probe_env \<Rightarrow> menu_state \<Rightarrow> fault + menu_state" where
  "init_menu_system_values cfg env s =
    (case (if HAS_MENU_VOLUME cfg
           then (case probe_percentage SHELL_CMD_VOLUME_GET (volume_get env) (res0 env) of
                   Inl f \<Rightarrow> Inl f
                 | Inr (buf, es, v) \<Rightarrow> Inr (buf, emit es (s\<lparr>volume_percentage := v\<rparr>)))
           else Inr (res0 env, s)) of
       Inl f \<Rightarrow> Inl f
     | Inr (buf1, s1) \<Rightarrow>
         (case (if HAS_MENU_BRIGHTNESS cfg
                then (case probe_percentage SHELL_CMD_BRIGHTNESS_GET (brightness_get env) buf1 of
                        Inl f \<Rightarrow> Inl f
                      | Inr (buf, es, v) \<Rightarrow> Inr (emit es (s1\<lparr>brightness_percentage := v\<rparr>)))
                else Inr s1) of
            Inl f \<Rightarrow> Inl f
          | Inr s2 \<Rightarrow> if HAS_MENU_USB cfg then probe_usb env s2 else Inr s2))"

subsection \<open>FK_RunMenu\<close>

text \<open>
  Lines 900 to 945: the locals get their initial values, the system values are read,
  the save slot is reduced, the background is copied. The result is \<open>None\<close> when the
  input ends while the loop is still running.
\<close>

definition FK_RunMenu_start :: "features \<Rightarrow> probe_env \<Rightarrow> menu_state \<Rightarrow> fault + menu_state" where
  "FK_RunMenu_start cfg env s =
    (let s1 = s\<lparr>scroll := 0, start_scroll := 0, screen_refresh := True,
                menu_confirmation := False, stop_menu_loop := False,
                returnCode := MENU_RETURN_OK, returned := None,
                indexChooseLayout :=
                  (if HAS_MENU_THEME cfg then currentLayoutIdx env else indexChooseLayout s)\<rparr>
     in case init_menu_system_values cfg env s1 of
          Inl f \<Rightarrow> Inl f
        | Inr s2 \<Rightarrow>
            (let s3 = s2\<lparr>prevItem := menuItem s2\<rparr>;
                 s4 = (if HAS_MENU_SAVE cfg \<or> HAS_MENU_LOAD cfg
                       then s3\<lparr>savestate_slot := c_rem (savestate_slot s3) MAX_SAVE_SLOTS\<rparr>
                       else s3)
             in if background_ok env then Inr s4
                else Inr (s4\<lparr>returned := Some MENU_RETURN_ERROR\<rparr>)))"

definition FK_RunMenu ::
  "features \<Rightarrow> probe_env \<Rightarrow> (SDL_Event \<times> bool) list list \<Rightarrow> menu_state
    \<Rightarrow> fault + (return_code option \<times> menu_state)" where
  "FK_RunMenu cfg env arrivals s =
    (case FK_RunMenu_start cfg env s of
       Inl f \<Rightarrow> Inl f
     | Inr s1 \<Rightarrow>
         if returned s1 \<noteq> None then Inr (returned s1, s1)
         else (case menu_loop cfg arrivals [] s1 of
                 Inl f \<Rightarrow> Inl f
               | Inr s2 \<Rightarrow>
                   Inr (if session_over s2 then Some (result_code s2) else None, s2)))"

subsection \<open>draw_progress_bar\<close>

text \<open>
  The parameters are \<^verbatim>\<open>uint16_t\<close> and \<^verbatim>\<open>uint8_t\<close>: words. C computes on them as
  \<^verbatim>\<open>int\<close> (\<open>uint\<close>) and an assignment to a \<^verbatim>\<open>uint16_t\<close> cuts the value to 16 bits
  (\<open>word_of_int\<close>). Of the surface only \<^verbatim>\<open>w\<close> and \<^verbatim>\<open>h\<close> are read. In SDL 1.2 the
  fields \<^verbatim>\<open>x\<close>, \<^verbatim>\<open>y\<close> of an \<^verbatim>\<open>SDL_Rect\<close> are \<^verbatim>\<open>Sint16\<close> and \<^verbatim>\<open>w\<close>, \<^verbatim>\<open>h\<close> are
  \<^verbatim>\<open>Uint16\<close>; the record keeps the 16 bits of each.
\<close>

record SDL_Surface =
  surface_w :: int
  surface_h :: int

record SDL_Rect =
  rect_x :: "16 word"
  rect_y :: "16 word"
  rect_w :: "16 word"
  rect_h :: "16 word"

datatype colour = GRAY_MAIN | WHITE_MAIN

text \<open>One call of \<^verbatim>\<open>SDL_FillRect\<close>.\<close>

type_synonym fill = "SDL_Rect \<times> colour"

record bar_layout =
  bar_x :: "16 word"
  bar_y :: "16 word"
  bar_height :: "16 word"
  bar_nb_bars :: "16 word"
  bar_width :: "16 word"
  bar_padding_x :: "16 word"
  nb_full_bars :: "16 word"

definition line_width :: "16 word" where "line_width = 1"
definition padding_bars_ratio :: "16 word" where "padding_bars_ratio = 3"

text \<open>
  Lines 273 to 285, \<^verbatim>\<open>Check values\<close>. The division by \<^verbatim>\<open>nb_bars\<close> in line 283 is
  undefined when no bar fits or none is asked for.
\<close>

definition check_values ::
  "SDL_Surface \<Rightarrow> 16 word \<Rightarrow> 16 word \<Rightarrow> 16 word \<Rightarrow> 16 word \<Rightarrow> 8 word \<Rightarrow> 16 word
    \<Rightarrow> fault + bar_layout" where
  "check_values surface x y width height percentage nb_bars =
    (let percentage1 = (if uint percentage > 100 then 100 else percentage);
         x1 = (if uint x > surface_w surface - 1
               then word_of_int (surface_w surface - 1) else x);
         y1 = (if uint y > surface_h surface - 1
               then word_of_int (surface_h surface - 1) else y);
         width1 = (if uint width < uint line_width * 2 + 1
                   then word_of_int (uint line_width * 2 + 1) else width);
         width2 = (if uint width1 > surface_w surface - uint x1 - 1
                   then word_of_int (surface_w surface - uint x1 - 1) else width1);
         height1 = (if uint height < uint line_width * 2 + 1
                    then word_of_int (uint line_width * 2 + 1) else height);
         height2 = (if uint height1 > surface_h surface - uint y1 - 1
                    then word_of_int (surface_h surface - uint y1 - 1) else height1);
         nb_bars_max = (word_of_int
            ((uint width2 * uint padding_bars_ratio div (uint line_width * 2 + 1) + 1)
               div (uint padding_bars_ratio + 1)) :: 16 word);
         nb_bars1 = (if uint nb_bars > uint nb_bars_max then nb_bars_max else nb_bars)
     in if nb_bars1 = 0 then Inl DivisionByZero
        else
          (let bw = (word_of_int
                 ((uint width2 div uint nb_bars1) * uint padding_bars_ratio
                    div (uint padding_bars_ratio + 1) + 1) :: 16 word)
           in Inr \<lparr>bar_x = x1, bar_y = y1, bar_height = height2, bar_nb_bars = nb_bars1,
                   bar_width = bw,
                   bar_padding_x = word_of_int (uint bw div uint padding_bars_ratio),
                   nb_full_bars = word_of_int (uint nb_bars1 * uint percentage1 div 100)\<rparr>))"

text \<open>Lines 292 to 294: the rectangle of the solid bar number \<open>i\<close>.\<close>

definition full_bar :: "bar_layout \<Rightarrow> int \<Rightarrow> fill list" where
  "full_bar L i =
    [(\<lparr>rect_x = word_of_int (uint (bar_x L) + i * (uint (bar_width L) + uint (bar_padding_x L))),
       rect_y = bar_y L, rect_w = bar_width L, rect_h = bar_height L\<rparr>, GRAY_MAIN)]"

text \<open>Lines 302 to 308: a gray rectangle and, one line in, a white one.\<close>

definition empty_bar :: "bar_layout \<Rightarrow> int \<Rightarrow> fill list" where
  "empty_bar L i =
    [(\<lparr>rect_x = word_of_int (uint (bar_x L) + i * (uint (bar_width L) + uint (bar_padding_x L))
                  + uint (nb_full_bars L) * (uint (bar_width L) + uint (bar_padding_x L))),
       rect_y = bar_y L, rect_w = bar_width L, rect_h = bar_height L\<rparr>, GRAY_MAIN),
     (\<lparr>rect_x = word_of_int (uint (bar_x L) + i * (uint (bar_width L) + uint (bar_padding_x L))
                  + uint line_width
                  + uint (nb_full_bars L) * (uint (bar_width L) + uint (bar_padding_x L))),
       rect_y = word_of_int (uint (bar_y L) + uint line_width),
       rect_w = word_of_int (uint (bar_width L) - uint line_width * 2),
       rect_h = word_of_int (uint (bar_height L) - uint line_width * 2)\<rparr>, WHITE_MAIN)]"

text \<open>The two \<^verbatim>\<open>for\<close> statements (lines 288 to 295 and 298 to 309), from \<open>i\<close> on.\<close>

function full_bars_from :: "bar_layout \<Rightarrow> int \<Rightarrow> fill list" where
  "full_bars_from L i =
     (if i < uint (nb_full_bars L) then full_bar L i @ full_bars_from L (i + 1) else [])"
  by pat_completeness auto
termination
  by (relation "measure (\<lambda>(L, i). nat (uint (nb_full_bars L) - i))") auto

function empty_bars_from :: "bar_layout \<Rightarrow> int \<Rightarrow> fill list" where
  "empty_bars_from L i =
     (if i < uint (bar_nb_bars L) - uint (nb_full_bars L)
      then empty_bar L i @ empty_bars_from L (i + 1) else [])"
  by pat_completeness auto
termination
  by (relation "measure (\<lambda>(L, i). nat (uint (bar_nb_bars L) - uint (nb_full_bars L) - i))") auto

text \<open>\<^verbatim>\<open>draw_progress_bar\<close> (lines 265 to 312): the fills it makes, in order.\<close>

definition draw_progress_bar ::
  "SDL_Surface \<Rightarrow> 16 word \<Rightarrow> 16 word \<Rightarrow> 16 word \<Rightarrow> 16 word \<Rightarrow> 8 word \<Rightarrow> 16 word
    \<Rightarrow> fault + fill list" where
  "draw_progress_bar surface x y width height percentage nb_bars =
    (case check_values surface x y width height percentage nb_bars of
       Inl f \<Rightarrow> Inl f
     | Inr L \<Rightarrow> Inr (full_bars_from L 0 @ empty_bars_from L 0))"

subsection \<open>The zone registry and a reference configuration\<close>

text \<open>\<^verbatim>\<open>init_menu_zones\<close> (lines 451 to 486): the zones compiled in, in this order.\<close>

definition init_menu_zones :: "features \<Rightarrow> ENUM_MENU_TYPE list" where
  "init_menu_zones cfg =
     (if HAS_MENU_VOLUME cfg then [MENU_TYPE_VOLUME] else [])
   @ (if HAS_MENU_BRIGHTNESS cfg then [MENU_TYPE_BRIGHTNESS] else [])
   @ (if HAS_MENU_SAVE cfg then [MENU_TYPE_SAVE] else [])
   @ (if HAS_MENU_LOAD cfg then [MENU_TYPE_LOAD] else [])
   @ (if HAS_MENU_ASPECT_RATIO cfg then [MENU_TYPE_ASPECT_RATIO] else [])
   @ (if HAS_MENU_RO_RW cfg then [MENU_TYPE_RO_RW] else [])
   @ (if HAS_MENU_EXIT cfg then [MENU_TYPE_EXIT] else [])
   @ (if HAS_MENU_USB cfg then [MENU_TYPE_USB] else [])
   @ (if HAS_MENU_THEME cfg then [MENU_TYPE_THEME] else [])
   @ (if HAS_MENU_LAUNCHER cfg then [MENU_TYPE_LAUNCHER] else [])
   @ (if HAS_MENU_POWERDOWN cfg then [MENU_TYPE_POWERDOWN] else [])"

text \<open>
  The state after \<^verbatim>\<open>FK_InitMenu\<close>: the zones are registered and the file-level
  variables hold their static initialisers (lines 209 to 260). The locals of
  \<^verbatim>\<open>FK_RunMenu\<close> are set by \<open>FK_RunMenu_start\<close>. \<open>n\<close> is the number of layouts
  of the configuration.
\<close>

definition FK_InitMenu :: "features \<Rightarrow> nat \<Rightarrow> menu_state" where
  "FK_InitMenu cfg n =
    \<lparr>idx_menus = init_menu_zones cfg, menuItem = 0, prevItem = 0, scroll = 0,
     start_scroll = 0, screen_refresh = False, menu_confirmation = False,
     stop_menu_loop = False, returnCode = MENU_RETURN_OK, returned = None,
     volume_percentage = 0, brightness_percentage = 0, savestate_slot = 0,
     aspect_ratio = 0, indexChooseLayout = 0, nb_layouts = n,
     usb_data_connected = False, usb_sharing = False, read_write = False,
     effects = []\<rparr>"

text \<open>
  A configuration to evaluate the model on: every zone compiled in, steps of 10 per
  cent, two aspect ratios, a 32-bit target.
\<close>

definition all_zones :: features where
  "all_zones =
    \<lparr>HAS_MENU_VOLUME = True, HAS_MENU_BRIGHTNESS = True, HAS_MENU_SAVE = True,
     HAS_MENU_LOAD = True, HAS_MENU_ASPECT_RATIO = True, HAS_MENU_USB = True,
     HAS_MENU_THEME = True, HAS_MENU_LAUNCHER = True, HAS_MENU_RO_RW = True,
     HAS_MENU_EXIT = True, HAS_MENU_POWERDOWN = True,
     STEP_CHANGE_VOLUME = 10, STEP_CHANGE_BRIGHTNESS = 10,
     NB_ASPECT_RATIOS_TYPES = 2, SIZE_T_BITS = 32\<rparr>"

text \<open>The state of that configuration with three layouts, at the zone with index \<open>i\<close>.\<close>

definition at_zone :: "int \<Rightarrow> menu_state" where
  "at_zone i = (FK_InitMenu all_zones 3)\<lparr>menuItem := i, prevItem := i\<rparr>"

subsection \<open>The specification's words\<close>

text \<open>
  The zones whose Confirm key has something to confirm: save, load, USB mount and
  unmount, theme, launcher, exit, power down, read-write toggle.
\<close>

definition guarded_zone :: "features \<Rightarrow> menu_state \<Rightarrow> bool" where
  "guarded_zone cfg s \<longleftrightarrow>
     HAS_MENU_SAVE cfg \<and> zone_is s MENU_TYPE_SAVE
   \<or> HAS_MENU_LOAD cfg \<and> zone_is s MENU_TYPE_LOAD
   \<or> HAS_MENU_USB cfg \<and> zone_is s MENU_TYPE_USB
   \<or> HAS_MENU_THEME cfg \<and> zone_is s MENU_TYPE_THEME
   \<or> HAS_MENU_LAUNCHER cfg \<and> zone_is s MENU_TYPE_LAUNCHER
   \<or> HAS_MENU_EXIT cfg \<and> zone_is s MENU_TYPE_EXIT
   \<or> HAS_MENU_POWERDOWN cfg \<and> zone_is s MENU_TYPE_POWERDOWN
   \<or> HAS_MENU_RO_RW cfg \<and> zone_is s MENU_TYPE_RO_RW"

text \<open>
  Something was done between \<open>s\<close> and \<open>s'\<close>: a command, a log line, a redraw or an
  export reached the outside world, the loop was told to stop, the result changed, the
  function returned, or the USB share or the file system mode changed.
\<close>

definition action_performed :: "menu_state \<Rightarrow> menu_state \<Rightarrow> bool" where
  "action_performed s s' \<longleftrightarrow>
     effects s' \<noteq> effects s \<or> stop_menu_loop s' \<noteq> stop_menu_loop s
   \<or> returnCode s' \<noteq> returnCode s \<or> returned s' \<noteq> returned s
   \<or> usb_sharing s' \<noteq> usb_sharing s \<or> read_write s' \<noteq> read_write s"

text \<open>
  The index a Down (\<open>d = 1\<close>) or an Up (\<open>d = - 1\<close>) lands on: one step modulo the
  number of zones, and one more in the same direction when that is the USB zone while
  USB is not connected.
\<close>

definition spec_landing :: "features \<Rightarrow> menu_state \<Rightarrow> int \<Rightarrow> int" where
  "spec_landing cfg s d =
    (let i1 = (menuItem s + d) mod nb_menu_zones s in
     if HAS_MENU_USB cfg \<and> idx_menus s ! nat i1 = MENU_TYPE_USB \<and> \<not> usb_data_connected s
     then (i1 + d) mod nb_menu_zones s else i1)"

text \<open>The keys that a USB share locks.\<close>

definition locked_keys :: "SDLKey set" where
  "locked_keys = {SDLK_u, SDLK_UP, SDLK_d, SDLK_DOWN, SDLK_q, SDLK_ESCAPE}"

text \<open>The range invariant of the dynamic values: percentages in [0,100], slot in [0,9).\<close>

definition values_in_range :: "menu_state \<Rightarrow> bool" where
  "values_in_range s \<longleftrightarrow>
     0 \<le> volume_percentage s \<and> volume_percentage s \<le> 100
   \<and> 0 \<le> brightness_percentage s \<and> brightness_percentage s \<le> 100
   \<and> 0 \<le> savestate_slot s \<and> savestate_slot s < MAX_SAVE_SLOTS"

definition left_right_keys :: "SDLKey set" where
  "left_right_keys = {SDLK_l, SDLK_LEFT, SDLK_r, SDLK_RIGHT}"

text \<open>
  What Left and Right need in order not to fault: the index inside the zone list, and a
  divisor that is not zero where the aspect ratio or the theme zone is compiled in.
\<close>

definition left_right_ready :: "features \<Rightarrow> menu_state \<Rightarrow> bool" where
  "left_right_ready cfg s \<longleftrightarrow>
     item_in_range s
   \<and> (HAS_MENU_ASPECT_RATIO cfg \<longrightarrow> NB_ASPECT_RATIOS_TYPES cfg \<noteq> 0)
   \<and> (HAS_MENU_THEME cfg \<longrightarrow> nb_layouts s \<noteq> 0)"

text \<open>A property of the state a step results in, when it results in one.\<close>

definition on_result :: "(menu_state \<Rightarrow> bool) \<Rightarrow> fault + menu_state \<Rightarrow> bool" where
  "on_result P r = (case r of Inl f \<Rightarrow> True | Inr s' \<Rightarrow> P s')"

text \<open>
  The session is over with the result Exit: \<^verbatim>\<open>FK_RunMenu\<close> has returned
  \<^verbatim>\<open>MENU_RETURN_EXIT\<close> from inside the loop, or the loop has been told to stop with
  \<^verbatim>\<open>returnCode\<close> at \<^verbatim>\<open>MENU_RETURN_EXIT\<close>.
\<close>

definition quit_seen :: "menu_state \<Rightarrow> bool" where
  "quit_seen s \<longleftrightarrow> returned s = Some MENU_RETURN_EXIT
      \<or> (returned s = None \<and> stop_menu_loop s \<and> returnCode s = MENU_RETURN_EXIT)"

definition may_return :: "menu_state \<Rightarrow> bool" where
  "may_return s \<longleftrightarrow> returned s = None \<or> returned s = Some MENU_RETURN_EXIT"

text \<open>
  Two answers of the outside world at the start of a session. In the first the volume
  command prints 150. In the second the volume command prints 70 and the brightness
  command starts but prints nothing.
\<close>

definition probe_150 :: probe_env where
  "probe_150 =
    \<lparr>volume_get = Some ''150'', brightness_get = None, usb_connected_answer = False,
     usb_sharing_answer = False, res0 = [], currentLayoutIdx = 0, background_ok = True\<rparr>"

definition probe_silent_brightness :: probe_env where
  "probe_silent_brightness =
    \<lparr>volume_get = Some ''70'', brightness_get = Some [], usb_connected_answer = False,
     usb_sharing_answer = False, res0 = [], currentLayoutIdx = 0, background_ok = True\<rparr>"

text \<open>
  Between two frames no scroll start is pending and the offset is strictly inside the
  zone height.
\<close>

definition scroll_settled :: "menu_state \<Rightarrow> bool" where
  "scroll_settled s \<longleftrightarrow>
     start_scroll s = 0 \<and> - MENU_ZONE_HEIGHT < scroll s \<and> scroll s < MENU_ZONE_HEIGHT"

text \<open>
  The layout algorithm in the specification's words, on unbounded integers: the
  percentage capped at 100; x and y capped at the last column and row of the surface;
  width and height raised to 3 (two lines and one pixel) and capped at what is left of
  the surface; the largest bar count that fits the width for line width 1 and padding
  ratio 3; the bar count capped at it; the width of a bar and the padding; the number
  of filled bars, \<open>barCount * percentage div 100\<close>.
\<close>

record spec_layout =
  sp_percentage :: int
  sp_x :: int
  sp_y :: int
  sp_width :: int
  sp_height :: int
  sp_nb_bars_max :: int
  sp_nb_bars :: int
  sp_bar_width :: int
  sp_bar_padding :: int
  sp_filled :: int

definition spec_bar_layout ::
  "SDL_Surface \<Rightarrow> int \<Rightarrow> int \<Rightarrow> int \<Rightarrow> int \<Rightarrow> int \<Rightarrow> int \<Rightarrow> spec_layout" where
  "spec_bar_layout surface x y width height percentage nb_bars =
    (let p = min percentage 100;
         x' = min x (surface_w surface - 1);
         y' = min y (surface_h surface - 1);
         w' = min (max width 3) (surface_w surface - x' - 1);
         h' = min (max height 3) (surface_h surface - y' - 1);
         nmax = (w' * 3 div 3 + 1) div 4;
         n = min nb_bars nmax;
         bw = (w' div n) * 3 div 4 + 1
     in \<lparr>sp_percentage = p, sp_x = x', sp_y = y', sp_width = w', sp_height = h',
         sp_nb_bars_max = nmax, sp_nb_bars = n, sp_bar_width = bw,
         sp_bar_padding = bw div 3, sp_filled = n * p div 100\<rparr>)"

text \<open>The layout as the 16-bit variables of the code hold it.\<close>

definition to_bar_layout :: "spec_layout \<Rightarrow> bar_layout" where
  "to_bar_layout S =
    \<lparr>bar_x = word_of_int (sp_x S), bar_y = word_of_int (sp_y S),
     bar_height = word_of_int (sp_height S), bar_nb_bars = word_of_int (sp_nb_bars S),
     bar_width = word_of_int (sp_bar_width S),
     bar_padding_x = word_of_int (sp_bar_padding S),
     nb_full_bars = word_of_int (sp_filled S)\<rparr>"

text \<open>Every quantity of the layout fits its 16-bit variable: nothing wraps.\<close>

definition fits_u16 :: "int \<Rightarrow> bool" where
  "fits_u16 k \<longleftrightarrow> 0 \<le> k \<and> k < 65536"

definition layout_fits :: "spec_layout \<Rightarrow> bool" where
  "layout_fits S \<longleftrightarrow>
     fits_u16 (sp_x S) \<and> fits_u16 (sp_y S) \<and> fits_u16 (sp_width S)
   \<and> fits_u16 (sp_height S) \<and> fits_u16 (sp_nb_bars_max S) \<and> fits_u16 (sp_nb_bars S)
   \<and> fits_u16 (sp_bar_width S) \<and> fits_u16 (sp_bar_padding S) \<and> fits_u16 (sp_filled S)"

text \<open>The 240 by 240 screen of the device.\<close>

definition screen_240 :: SDL_Surface where
  "screen_240 = \<lparr>surface_w = 240, surface_h = 240\<rparr>"

section \<open>Properties\<close>

subsection \<open>The reference configuration, evaluated\<close>

lemma init_menu_zones_all_zones:
  "init_menu_zones all_zones =
     [MENU_TYPE_VOLUME, MENU_TYPE_BRIGHTNESS, MENU_TYPE_SAVE, MENU_TYPE_LOAD,
      MENU_TYPE_ASPECT_RATIO, MENU_TYPE_RO_RW, MENU_TYPE_EXIT, MENU_TYPE_USB,
      MENU_TYPE_THEME, MENU_TYPE_LAUNCHER, MENU_TYPE_POWERDOWN]"
  by (simp add: init_menu_zones_def all_zones_def)

lemma all_zones_simps:
  "HAS_MENU_VOLUME all_zones" "HAS_MENU_BRIGHTNESS all_zones" "HAS_MENU_SAVE all_zones"
  "HAS_MENU_LOAD all_zones" "HAS_MENU_ASPECT_RATIO all_zones" "HAS_MENU_USB all_zones"
  "HAS_MENU_THEME all_zones" "HAS_MENU_LAUNCHER all_zones" "HAS_MENU_RO_RW all_zones"
  "HAS_MENU_EXIT all_zones" "HAS_MENU_POWERDOWN all_zones"
  "STEP_CHANGE_VOLUME all_zones = 10" "STEP_CHANGE_BRIGHTNESS all_zones = 10"
  "NB_ASPECT_RATIOS_TYPES all_zones = 2" "SIZE_T_BITS all_zones = 32"
  by (simp_all add: all_zones_def)

lemma at_zone_simps:
  "idx_menus (at_zone i) = init_menu_zones all_zones"
  "menuItem (at_zone i) = i" "prevItem (at_zone i) = i"
  "scroll (at_zone i) = 0" "start_scroll (at_zone i) = 0"
  "screen_refresh (at_zone i) = False" "menu_confirmation (at_zone i) = False"
  "stop_menu_loop (at_zone i) = False" "returnCode (at_zone i) = MENU_RETURN_OK"
  "returned (at_zone i) = None"
  "volume_percentage (at_zone i) = 0" "brightness_percentage (at_zone i) = 0"
  "savestate_slot (at_zone i) = 0" "aspect_ratio (at_zone i) = 0"
  "indexChooseLayout (at_zone i) = 0" "nb_layouts (at_zone i) = 3"
  "usb_data_connected (at_zone i) = False" "usb_sharing (at_zone i) = False"
  "read_write (at_zone i) = False" "effects (at_zone i) = []"
  by (simp_all add: at_zone_def FK_InitMenu_def)

lemma nb_menu_zones_at_zone: "nb_menu_zones (at_zone i) = 11"
  by (simp add: nb_menu_zones_def at_zone_def FK_InitMenu_def init_menu_zones_all_zones)

lemma item_in_range_at_zone: "item_in_range (at_zone i) \<longleftrightarrow> 0 \<le> i \<and> i < 11"
  by (simp add: item_in_range_def nb_menu_zones_at_zone) (simp add: at_zone_def)

lemma zone_is_at_zone:
  "zone_is (at_zone i) t \<longleftrightarrow> init_menu_zones all_zones ! nat i = t"
  by (simp add: zone_is_def at_zone_def FK_InitMenu_def)

lemma nb_menu_zones_menuItem_update [simp]:
  "nb_menu_zones (s\<lparr>menuItem := i\<rparr>) = nb_menu_zones s"
  by (simp add: nb_menu_zones_def)

subsection \<open>The confirmation gate\<close>

lemma confirm_without_flag:
  assumes "handle_confirm cfg ok s = Inr s'" and "\<not> menu_confirmation s"
  shows "s' = s \<or> s' = ask_confirmation s"
  using assms by (simp add: handle_confirm_def split: if_splits)

text \<open>
  C1. Whenever the Confirm handler performs an action, the confirmation flag was set
  when the handler was entered. With the flag not set, Confirm on one of the eight
  guarded zones sets the flag, asks for a redraw and does nothing else; on any other
  zone it changes nothing.
\<close>

theorem confirm_needs_pending_flag:
  "(handle_confirm cfg ok s = Inr s' \<and> action_performed s s' \<longrightarrow> menu_confirmation s)
   \<and> (\<not> menu_confirmation s \<and> item_in_range s \<longrightarrow>
        handle_confirm cfg ok s =
          Inr (if guarded_zone cfg s
               then s\<lparr>menu_confirmation := True, screen_refresh := True\<rparr> else s))"
proof (intro conjI impI)
  assume a: "handle_confirm cfg ok s = Inr s' \<and> action_performed s s'"
  show "menu_confirmation s"
  proof (rule ccontr)
    assume "\<not> menu_confirmation s"
    with a have "s' = s \<or> s' = ask_confirmation s"
      using confirm_without_flag by blast
    with a show False
      by (auto simp: action_performed_def ask_confirmation_def)
  qed
next
  assume "\<not> menu_confirmation s \<and> item_in_range s"
  then show "handle_confirm cfg ok s =
      Inr (if guarded_zone cfg s
           then s\<lparr>menu_confirmation := True, screen_refresh := True\<rparr> else s)"
    by (simp add: handle_confirm_def guarded_zone_def ask_confirmation_def)
qed

text \<open>
  On the Save zone of the reference configuration: the first Confirm only sets the
  flag, the second one redraws with the progress text and stops the loop.
\<close>

theorem confirm_needs_pending_flag_witness:
  "\<not> menu_confirmation (at_zone 2) \<and> item_in_range (at_zone 2)
   \<and> handle_confirm all_zones True (at_zone 2) =
       Inr ((at_zone 2)\<lparr>menu_confirmation := True, screen_refresh := True\<rparr>)
   \<and> handle_confirm all_zones True ((at_zone 2)\<lparr>menu_confirmation := True\<rparr>) =
       Inr ((at_zone 2)\<lparr>menu_confirmation := True, stop_menu_loop := True,
                        effects := [Screen_refresh 2 2 0 True True]\<rparr>)
   \<and> action_performed ((at_zone 2)\<lparr>menu_confirmation := True\<rparr>)
       ((at_zone 2)\<lparr>menu_confirmation := True, stop_menu_loop := True,
                    effects := [Screen_refresh 2 2 0 True True]\<rparr>)
   \<and> menu_confirmation ((at_zone 2)\<lparr>menu_confirmation := True\<rparr>)"
proof -
  have z: "zone_is (at_zone 2) MENU_TYPE_SAVE" "guarded_zone all_zones (at_zone 2)"
    by (simp_all add: guarded_zone_def zone_is_at_zone init_menu_zones_all_zones all_zones_simps)
  have f: "\<not> menu_confirmation (at_zone 2)" "item_in_range (at_zone 2)"
    by (simp_all add: item_in_range_at_zone) (simp add: at_zone_def FK_InitMenu_def)
  have second: "handle_confirm all_zones True ((at_zone 2)\<lparr>menu_confirmation := True\<rparr>) =
       Inr ((at_zone 2)\<lparr>menu_confirmation := True, stop_menu_loop := True,
                        effects := [Screen_refresh 2 2 0 True True]\<rparr>)"
    by (simp add: handle_confirm_def item_in_range_def nb_menu_zones_def zone_is_def emit_def
        refresh_action_def at_zone_def FK_InitMenu_def init_menu_zones_all_zones all_zones_simps)
  have act: "action_performed ((at_zone 2)\<lparr>menu_confirmation := True\<rparr>)
       ((at_zone 2)\<lparr>menu_confirmation := True, stop_menu_loop := True,
                    effects := [Screen_refresh 2 2 0 True True]\<rparr>)"
    by (simp add: action_performed_def at_zone_def FK_InitMenu_def)
  show ?thesis
    using confirm_needs_pending_flag [of all_zones True "at_zone 2"] z f second act
    by simp
qed

subsection \<open>Down and Up\<close>

lemma next_item_mod: "0 \<le> i \<Longrightarrow> i < n \<Longrightarrow> next_item n i = (i + 1) mod n"
  by (cases "i + 1 = n") (auto simp: next_item_def)

lemma prev_item_mod: "0 \<le> i \<Longrightarrow> i < n \<Longrightarrow> prev_item n i = (i - 1) mod n"
  by (cases "i = 0") (auto simp: prev_item_def zmod_minus1)

lemma handle_down_landing:
  assumes "\<not> (HAS_MENU_USB cfg \<and> usb_sharing s)" and "item_in_range s"
  shows "handle_down cfg s =
     Inr (s\<lparr>menuItem := spec_landing cfg s 1,
            start_scroll := 1, menu_confirmation := False, screen_refresh := True\<rparr>)"
proof -
  let ?n = "nb_menu_zones s"
  from assms(2) have r: "0 \<le> menuItem s" "menuItem s < ?n"
    by (auto simp: item_in_range_def)
  then have n: "0 < ?n" by simp
  let ?i1 = "(menuItem s + 1) mod ?n"
  have i1: "0 \<le> ?i1" "?i1 < ?n" using n by simp_all
  have e1: "next_item ?n (menuItem s) = ?i1" using r by (rule next_item_mod)
  have e2: "next_item ?n ?i1 = (?i1 + 1) mod ?n" using i1 by (rule next_item_mod)
  show ?thesis using assms(1) i1
    by (auto simp add: handle_down_def Let_def e1 e2 item_in_range_def zone_is_def
        spec_landing_def)
qed

lemma handle_up_landing:
  assumes "\<not> (HAS_MENU_USB cfg \<and> usb_sharing s)" and "item_in_range s"
  shows "handle_up cfg s =
     Inr (s\<lparr>menuItem := spec_landing cfg s (- 1),
            start_scroll := - 1, menu_confirmation := False, screen_refresh := True\<rparr>)"
proof -
  let ?n = "nb_menu_zones s"
  from assms(2) have r: "0 \<le> menuItem s" "menuItem s < ?n"
    by (auto simp: item_in_range_def)
  then have n: "0 < ?n" by simp
  let ?i1 = "(menuItem s - 1) mod ?n"
  have i1: "0 \<le> ?i1" "?i1 < ?n" using n by simp_all
  have e1: "prev_item ?n (menuItem s) = ?i1" using r by (rule prev_item_mod)
  have e2: "prev_item ?n ?i1 = (?i1 - 1) mod ?n" using i1 by (rule prev_item_mod)
  show ?thesis using assms(1) i1
    by (auto simp add: handle_up_def Let_def e1 e2 item_in_range_def zone_is_def
        spec_landing_def)
qed

text \<open>
  The frame that polls one Down or Up at offset 0 ends with the offset one step into
  the scroll, in the direction of the key.
\<close>

lemma frame_down_starts_scroll:
  assumes "\<not> (HAS_MENU_USB cfg \<and> usb_sharing s)" and "item_in_range s"
    and "scroll s = 0" and "returned s = None"
  shows "\<exists>s'. frame cfg [(SDL_KEYDOWN SDLK_DOWN, ok)] s = Inr s'
           \<and> scroll s' = SCROLL_SPEED_PX \<and> menuItem s' = spec_landing cfg s 1
           \<and> \<not> menu_confirmation s'"
  using assms(3,4)
  by (simp add: frame_def handle_down_landing [OF assms(1,2)] handle_scroll_def
      scroll_advance_def scroll_commit_def SCROLL_SPEED_PX_def MENU_ZONE_HEIGHT_def
      emit_def Let_def)

lemma frame_up_starts_scroll:
  assumes "\<not> (HAS_MENU_USB cfg \<and> usb_sharing s)" and "item_in_range s"
    and "scroll s = 0" and "returned s = None"
  shows "\<exists>s'. frame cfg [(SDL_KEYDOWN SDLK_UP, ok)] s = Inr s'
           \<and> scroll s' = - SCROLL_SPEED_PX \<and> menuItem s' = spec_landing cfg s (- 1)
           \<and> \<not> menu_confirmation s'"
  using assms(3,4)
  by (simp add: frame_def handle_up_landing [OF assms(1,2)] handle_scroll_def
      scroll_advance_def scroll_commit_def SCROLL_SPEED_PX_def MENU_ZONE_HEIGHT_def
      emit_def Let_def)

text \<open>
  C4. With no USB share active and the current index in the zone list, Down moves the
  index one step modulo the number of zones, so from the last index to 0, and Up one
  step back, so from 0 to the last index; when the landing zone is the USB zone and USB
  is not connected, the index moves one more step the same way, again modulo the number
  of zones. Both clear the confirmation flag and start a scroll in their direction:
  \<open>start_scroll\<close> is 1 for Down and -1 for Up, and the frame that polls the key ends
  with the offset at 30 for Down and at -30 for Up.
\<close>

theorem down_up_wrap_and_skip:
  assumes "\<not> (HAS_MENU_USB cfg \<and> usb_sharing s)" and "item_in_range s"
  shows "handle_down cfg s =
           Inr (s\<lparr>menuItem := spec_landing cfg s 1, start_scroll := 1,
                  menu_confirmation := False, screen_refresh := True\<rparr>)
       \<and> handle_up cfg s =
           Inr (s\<lparr>menuItem := spec_landing cfg s (- 1), start_scroll := - 1,
                  menu_confirmation := False, screen_refresh := True\<rparr>)
       \<and> (menuItem s = nb_menu_zones s - 1 \<longrightarrow> (menuItem s + 1) mod nb_menu_zones s = 0)
       \<and> (menuItem s = 0 \<longrightarrow> (menuItem s - 1) mod nb_menu_zones s = nb_menu_zones s - 1)
       \<and> 0 \<le> spec_landing cfg s 1 \<and> spec_landing cfg s 1 < nb_menu_zones s
       \<and> 0 \<le> spec_landing cfg s (- 1) \<and> spec_landing cfg s (- 1) < nb_menu_zones s
       \<and> (scroll s = 0 \<and> returned s = None \<longrightarrow>
            (\<exists>s'. frame cfg [(SDL_KEYDOWN SDLK_DOWN, ok)] s = Inr s'
                 \<and> scroll s' = SCROLL_SPEED_PX \<and> menuItem s' = spec_landing cfg s 1
                 \<and> \<not> menu_confirmation s')
          \<and> (\<exists>s'. frame cfg [(SDL_KEYDOWN SDLK_UP, ok)] s = Inr s'
                 \<and> scroll s' = - SCROLL_SPEED_PX \<and> menuItem s' = spec_landing cfg s (- 1)
                 \<and> \<not> menu_confirmation s'))"
proof -
  from assms(2) have n: "0 < nb_menu_zones s"
    by (auto simp: item_in_range_def)
  have wrap: "menuItem s = 0 \<longrightarrow> (menuItem s - 1) mod nb_menu_zones s = nb_menu_zones s - 1"
    using n by (simp add: zmod_minus1)
  have bounds: "0 \<le> spec_landing cfg s d \<and> spec_landing cfg s d < nb_menu_zones s" for d
    using n by (simp add: spec_landing_def Let_def)
  show ?thesis
    using handle_down_landing [OF assms] handle_up_landing [OF assms] wrap bounds
      frame_down_starts_scroll [OF assms, of ok] frame_up_starts_scroll [OF assms, of ok]
    by simp
qed

text \<open>
  The reference configuration, USB not connected: Down from the last zone (10) lands on
  0, Up from 0 on 10; Down from 6 would land on the USB zone (7) and goes on to 8, Up
  from 8 goes on to 6.
\<close>

theorem down_up_wrap_and_skip_witness:
  "handle_down all_zones (at_zone 10) =
     Inr ((at_zone 10)\<lparr>menuItem := 0, start_scroll := 1, menu_confirmation := False,
                       screen_refresh := True\<rparr>)
   \<and> handle_up all_zones (at_zone 0) =
     Inr ((at_zone 0)\<lparr>menuItem := 10, start_scroll := - 1, menu_confirmation := False,
                      screen_refresh := True\<rparr>)
   \<and> spec_landing all_zones (at_zone 6) 1 = 8
   \<and> spec_landing all_zones (at_zone 8) (- 1) = 6"
proof -
  have f: "\<not> (HAS_MENU_USB all_zones \<and> usb_sharing (at_zone i))" for i
    by (simp add: at_zone_def FK_InitMenu_def)
  have l: "spec_landing all_zones (at_zone 10) 1 = 0"
    "spec_landing all_zones (at_zone 0) (- 1) = 10"
    "spec_landing all_zones (at_zone 6) 1 = 8"
    "spec_landing all_zones (at_zone 8) (- 1) = 6"
    by (simp_all add: spec_landing_def nb_menu_zones_at_zone at_zone_simps
        init_menu_zones_all_zones all_zones_simps)
  show ?thesis
    using down_up_wrap_and_skip [OF f [of 10], simplified item_in_range_at_zone]
      down_up_wrap_and_skip [OF f [of 0], simplified item_in_range_at_zone] l
    by simp
qed

subsection \<open>The USB share locks the navigation\<close>

lemma locked_key_is_noop:
  assumes "HAS_MENU_USB cfg" and "usb_sharing s" and "k \<in> locked_keys"
  shows "handle_event cfg (SDL_KEYDOWN k, ok) s = Inr s"
  using assms by (auto simp: locked_keys_def handle_up_def handle_down_def handle_escape_def)

text \<open>
  C9. While the USB share is active, the handlers of Up, Down and Escape/Quit return the
  state as it was: index, scroll, confirmation flag and stop flag are unchanged. The
  same holds for any queue of such key presses handled in one poll.
\<close>

theorem usb_sharing_locks_navigation:
  assumes "HAS_MENU_USB cfg" and "usb_sharing s"
  shows "handle_up cfg s = Inr s \<and> handle_down cfg s = Inr s \<and> handle_escape cfg s = s
       \<and> ((\<forall>e \<in> set q. fst e \<in> SDL_KEYDOWN ` locked_keys) \<longrightarrow> poll_events cfg q s = Inr s)"
proof -
  have seq: "poll_events cfg q s = Inr s"
    if "\<forall>e \<in> set q. fst e \<in> SDL_KEYDOWN ` locked_keys"
    using that
  proof (induction q)
    case Nil
    then show ?case by simp
  next
    case (Cons e q)
    obtain ev ok where e: "e = (ev, ok)" by (cases e)
    from Cons.prems e obtain k where "ev = SDL_KEYDOWN k" "k \<in> locked_keys" by auto
    then have "handle_event cfg e s = Inr s"
      using assms e by (simp add: locked_key_is_noop)
    then show ?case using Cons by simp
  qed
  show ?thesis
    using assms seq by (simp add: handle_up_def handle_down_def handle_escape_def)
qed

text \<open>
  On the USB zone of the reference configuration with the share active: Up, Down,
  Escape and the queue Down, Escape, Up leave the state alone.
\<close>

theorem usb_sharing_locks_navigation_witness:
  "HAS_MENU_USB all_zones
   \<and> usb_sharing ((at_zone 7)\<lparr>usb_data_connected := True, usb_sharing := True\<rparr>)
   \<and> handle_up all_zones ((at_zone 7)\<lparr>usb_data_connected := True, usb_sharing := True\<rparr>)
       = Inr ((at_zone 7)\<lparr>usb_data_connected := True, usb_sharing := True\<rparr>)
   \<and> handle_down all_zones ((at_zone 7)\<lparr>usb_data_connected := True, usb_sharing := True\<rparr>)
       = Inr ((at_zone 7)\<lparr>usb_data_connected := True, usb_sharing := True\<rparr>)
   \<and> handle_escape all_zones ((at_zone 7)\<lparr>usb_data_connected := True, usb_sharing := True\<rparr>)
       = (at_zone 7)\<lparr>usb_data_connected := True, usb_sharing := True\<rparr>
   \<and> poll_events all_zones
        [(SDL_KEYDOWN SDLK_DOWN, True), (SDL_KEYDOWN SDLK_ESCAPE, True),
         (SDL_KEYDOWN SDLK_UP, True)]
        ((at_zone 7)\<lparr>usb_data_connected := True, usb_sharing := True\<rparr>)
       = Inr ((at_zone 7)\<lparr>usb_data_connected := True, usb_sharing := True\<rparr>)"
proof -
  have h: "HAS_MENU_USB all_zones"
    "usb_sharing ((at_zone 7)\<lparr>usb_data_connected := True, usb_sharing := True\<rparr>)"
    by (simp_all add: all_zones_simps)
  show ?thesis
    using h usb_sharing_locks_navigation [OF h,
        of "[(SDL_KEYDOWN SDLK_DOWN, True), (SDL_KEYDOWN SDLK_ESCAPE, True),
             (SDL_KEYDOWN SDLK_UP, True)]"]
    by (simp add: locked_keys_def)
qed

subsection \<open>Results of steps\<close>

lemma on_result_simps [simp]: "on_result P (Inl f)" "on_result P (Inr s) = P s"
  by (simp_all add: on_result_def)

lemma on_result_if [simp]:
  "on_result P (if c then a else b) = (if c then on_result P a else on_result P b)"
  by simp

subsection \<open>Ranges of the dynamic values\<close>

lemma c_rem_slot: "0 \<le> a \<Longrightarrow> 0 \<le> c_rem (a + 1) 9 \<and> c_rem (a + 1) 9 < 9"
  by (simp add: c_rem_def)

lemma handle_left_range:
  assumes "0 \<le> STEP_CHANGE_VOLUME cfg" and "0 \<le> STEP_CHANGE_BRIGHTNESS cfg"
    and "values_in_range s"
  shows "on_result values_in_range (handle_left cfg ok s)"
  using assms
  by (simp add: handle_left_def values_in_range_def emit_def Let_def MAX_SAVE_SLOTS_def)

lemma handle_right_range:
  assumes "0 \<le> STEP_CHANGE_VOLUME cfg" and "0 \<le> STEP_CHANGE_BRIGHTNESS cfg"
    and "values_in_range s"
  shows "on_result values_in_range (handle_right cfg ok s)"
  using assms c_rem_slot [of "savestate_slot s"]
  by (simp add: handle_right_def values_in_range_def emit_def Let_def MAX_SAVE_SLOTS_def)

lemma handle_down_range:
  "values_in_range s \<Longrightarrow> on_result values_in_range (handle_down cfg s)"
  by (simp add: handle_down_def Let_def values_in_range_def)

lemma handle_up_range:
  "values_in_range s \<Longrightarrow> on_result values_in_range (handle_up cfg s)"
  by (simp add: handle_up_def Let_def values_in_range_def)

lemma handle_confirm_range:
  "values_in_range s \<Longrightarrow> on_result values_in_range (handle_confirm cfg ok s)"
  by (simp add: handle_confirm_def Let_def emit_def ask_confirmation_def values_in_range_def)

lemma handle_event_range:
  assumes "0 \<le> STEP_CHANGE_VOLUME cfg" and "0 \<le> STEP_CHANGE_BRIGHTNESS cfg"
    and "values_in_range s"
  shows "on_result values_in_range (handle_event cfg e s)"
proof -
  obtain ev ok where e: "e = (ev, ok)" by (cases e)
  show ?thesis
  proof (cases ev)
    case SDL_QUIT
    with assms e show ?thesis by (simp add: handle_quit_def values_in_range_def)
  next
    case (SDL_KEYDOWN k)
    have ce: "on_result values_in_range (Inr (handle_cancel s))"
      "on_result values_in_range (Inr (handle_escape cfg s))"
      using assms(3) by (simp_all add: handle_cancel_def handle_escape_def values_in_range_def)
    show ?thesis unfolding e SDL_KEYDOWN
      using ce handle_left_range [OF assms] handle_right_range [OF assms]
        handle_down_range [OF assms(3)] handle_up_range [OF assms(3)]
        handle_confirm_range [OF assms(3)] assms(3)
      by (cases k) simp_all
  next
    case SDL_other_event
    with assms e show ?thesis by simp
  qed
qed

lemma poll_events_range:
  assumes "0 \<le> STEP_CHANGE_VOLUME cfg" and "0 \<le> STEP_CHANGE_BRIGHTNESS cfg"
  shows "values_in_range s \<Longrightarrow> on_result values_in_range (poll_events cfg q s)"
proof (induction q arbitrary: s)
  case Nil
  then show ?case by simp
next
  case (Cons e q)
  show ?case
  proof (cases "handle_event cfg e s")
    case (Inl f)
    then show ?thesis by simp
  next
    case (Inr s1)
    have r1: "values_in_range s1"
      using handle_event_range [OF assms Cons.prems, of e] Inr by simp
    show ?thesis using Inr r1 Cons.IH [OF r1] by simp
  qed
qed

text \<open>Left and Right do not fault on a ready state, and leave it ready and running.\<close>

lemma handle_left_total:
  assumes "left_right_ready cfg s"
  shows "\<exists>s'. handle_left cfg ok s = Inr s' \<and> left_right_ready cfg s'
           \<and> returned s' = returned s"
  using assms
  by (simp add: handle_left_def left_right_ready_def item_in_range_def nb_menu_zones_def
      emit_def Let_def)

lemma handle_right_total:
  assumes "left_right_ready cfg s"
  shows "\<exists>s'. handle_right cfg ok s = Inr s' \<and> left_right_ready cfg s'
           \<and> returned s' = returned s"
  using assms
  by (simp add: handle_right_def left_right_ready_def item_in_range_def nb_menu_zones_def
      emit_def Let_def) auto

lemma poll_left_right_total:
  assumes "\<forall>e \<in> set q. fst e \<in> SDL_KEYDOWN ` left_right_keys"
  shows "left_right_ready cfg s \<Longrightarrow> \<exists>s'. poll_events cfg q s = Inr s'"
  using assms
proof (induction q arbitrary: s)
  case Nil
  then show ?case by simp
next
  case (Cons e q)
  obtain ev ok where e: "e = (ev, ok)" by (cases e)
  from Cons.prems(2) e obtain k where k: "ev = SDL_KEYDOWN k" "k \<in> left_right_keys"
    by auto
  have "\<exists>s1. handle_event cfg e s = Inr s1 \<and> left_right_ready cfg s1"
    using k e handle_left_total [OF Cons.prems(1), of ok]
      handle_right_total [OF Cons.prems(1), of ok]
    by (auto simp: left_right_keys_def)
  then obtain s1 where s1: "handle_event cfg e s = Inr s1" "left_right_ready cfg s1"
    by blast
  have "\<exists>s'. poll_events cfg q s1 = Inr s'"
    using Cons.IH [OF s1(2)] Cons.prems(2) by simp
  then show ?case using s1(1) by auto
qed

text \<open>The frames and the loop keep the ranges as well.\<close>

lemma handle_scroll_values:
  "values_in_range (handle_scroll s) = values_in_range s"
  by (simp add: handle_scroll_def scroll_commit_def scroll_advance_def values_in_range_def)

lemma frame_range:
  assumes "0 \<le> STEP_CHANGE_VOLUME cfg" and "0 \<le> STEP_CHANGE_BRIGHTNESS cfg"
    and "values_in_range s"
  shows "on_result values_in_range (frame cfg q s)"
proof -
  have after: "on_result values_in_range
     (if returned s1 \<noteq> None then Inr s1
      else (let s2 = handle_scroll s1;
                s3 = (if screen_refresh s2 then emit [refresh_frame s2] s2 else s2)
            in Inr (s3\<lparr>screen_refresh := False\<rparr>)))"
    if "values_in_range s1" for s1
    using that handle_scroll_values [of s1]
    by (simp add: Let_def emit_def values_in_range_def)
  show ?thesis
  proof (cases "scroll s = 0")
    case True
    show ?thesis
    proof (cases "poll_events cfg q s")
      case (Inl f)
      then show ?thesis using True by (simp add: frame_def)
    next
      case (Inr s1)
      then have "values_in_range s1"
        using poll_events_range [OF assms, of q] by simp
      then show ?thesis using after [of s1] True Inr by (simp add: frame_def)
    qed
  next
    case False
    then show ?thesis using after [OF assms(3)] by (simp add: frame_def)
  qed
qed

lemma menu_loop_range:
  assumes "0 \<le> STEP_CHANGE_VOLUME cfg" and "0 \<le> STEP_CHANGE_BRIGHTNESS cfg"
  shows "values_in_range s \<Longrightarrow> on_result values_in_range (menu_loop cfg arrivals q s)"
proof (induction arrivals arbitrary: q s)
  case Nil
  then show ?case by simp
next
  case (Cons arr arrivals)
  show ?case
  proof (cases "frame cfg (q @ arr) s")
    case (Inl f)
    then show ?thesis using Cons.prems by simp
  next
    case (Inr s1)
    then have r1: "values_in_range s1"
      using frame_range [OF assms Cons.prems, of "q @ arr"] by simp
    show ?thesis using Inr r1 Cons.prems Cons.IH [OF r1] by simp
  qed
qed

text \<open>
  C5. With step sizes that are not negative: from a state whose volume and brightness
  are in [0,100] and whose save slot is in [0, MAX_SAVE_SLOTS), every queue of events
  (Left and Right among them) that is handled leaves them in these ranges, and so does
  every run of the loop. A queue of Left and Right presses on a ready state is handled
  without a fault, so there is such a state.
\<close>

theorem left_right_keep_ranges:
  assumes "0 \<le> STEP_CHANGE_VOLUME cfg" and "0 \<le> STEP_CHANGE_BRIGHTNESS cfg"
    and "values_in_range s"
  shows "(\<forall>s'. poll_events cfg q s = Inr s' \<longrightarrow> values_in_range s')
       \<and> ((\<forall>e \<in> set q. fst e \<in> SDL_KEYDOWN ` left_right_keys) \<and> left_right_ready cfg s
            \<longrightarrow> (\<exists>s'. poll_events cfg q s = Inr s' \<and> values_in_range s'))
       \<and> (\<forall>s'. menu_loop cfg arrivals q0 s = Inr s' \<longrightarrow> values_in_range s')"
proof -
  have r: "on_result values_in_range (poll_events cfg q s)"
    using poll_events_range [OF assms] .
  then have a: "\<forall>s'. poll_events cfg q s = Inr s' \<longrightarrow> values_in_range s'"
    by auto
  have "on_result values_in_range (menu_loop cfg arrivals q0 s)"
    using menu_loop_range [OF assms] .
  then have l: "\<forall>s'. menu_loop cfg arrivals q0 s = Inr s' \<longrightarrow> values_in_range s'"
    by auto
  have "\<exists>s'. poll_events cfg q s = Inr s' \<and> values_in_range s'"
    if "\<forall>e \<in> set q. fst e \<in> SDL_KEYDOWN ` left_right_keys" "left_right_ready cfg s"
    using poll_left_right_total [OF that] a by blast
  with a l show ?thesis by blast
qed

text \<open>
  On the Volume zone of the reference configuration at 90 per cent: Right, Right, Left
  gives 100, 100, 90; on the Save zone with slot 8, Right wraps to slot 0 and Left from
  slot 0 to slot 8.
\<close>

theorem left_right_keep_ranges_witness:
  "0 \<le> STEP_CHANGE_VOLUME all_zones \<and> 0 \<le> STEP_CHANGE_BRIGHTNESS all_zones
   \<and> values_in_range ((at_zone 0)\<lparr>volume_percentage := 90\<rparr>)
   \<and> left_right_ready all_zones ((at_zone 0)\<lparr>volume_percentage := 90\<rparr>)
   \<and> poll_events all_zones
        [(SDL_KEYDOWN SDLK_RIGHT, True), (SDL_KEYDOWN SDLK_r, True),
         (SDL_KEYDOWN SDLK_LEFT, True)]
        ((at_zone 0)\<lparr>volume_percentage := 90\<rparr>)
       = Inr ((at_zone 0)\<lparr>volume_percentage := 90, screen_refresh := True,
               effects := [Run (SHELL_CMD_VOLUME_SET 100), Run (SHELL_CMD_VOLUME_SET 100),
                           Run (SHELL_CMD_VOLUME_SET 90)]\<rparr>)
   \<and> values_in_range ((at_zone 0)\<lparr>volume_percentage := 90, screen_refresh := True,
               effects := [Run (SHELL_CMD_VOLUME_SET 100), Run (SHELL_CMD_VOLUME_SET 100),
                           Run (SHELL_CMD_VOLUME_SET 90)]\<rparr>)
   \<and> handle_right all_zones True ((at_zone 2)\<lparr>savestate_slot := 8\<rparr>)
       = Inr ((at_zone 2)\<lparr>savestate_slot := 0, screen_refresh := True\<rparr>)
   \<and> handle_left all_zones True (at_zone 2)
       = Inr ((at_zone 2)\<lparr>savestate_slot := 8, screen_refresh := True\<rparr>)"
proof -
  let ?s = "(at_zone 0)\<lparr>volume_percentage := 90\<rparr>"
  let ?q = "[(SDL_KEYDOWN SDLK_RIGHT, True), (SDL_KEYDOWN SDLK_r, True),
             (SDL_KEYDOWN SDLK_LEFT, True)]"
  have h: "0 \<le> STEP_CHANGE_VOLUME all_zones" "0 \<le> STEP_CHANGE_BRIGHTNESS all_zones"
    "values_in_range ?s"
    by (simp_all add: all_zones_simps values_in_range_def at_zone_simps MAX_SAVE_SLOTS_def)
  have rdy: "left_right_ready all_zones ?s"
    by (simp add: left_right_ready_def item_in_range_def nb_menu_zones_def at_zone_simps
        init_menu_zones_all_zones all_zones_simps)
  have run: "poll_events all_zones ?q ?s
       = Inr ((at_zone 0)\<lparr>volume_percentage := 90, screen_refresh := True,
               effects := [Run (SHELL_CMD_VOLUME_SET 100), Run (SHELL_CMD_VOLUME_SET 100),
                           Run (SHELL_CMD_VOLUME_SET 90)]\<rparr>)"
    by (simp add: handle_right_def handle_left_def item_in_range_def nb_menu_zones_def
        zone_is_def emit_def at_zone_simps init_menu_zones_all_zones all_zones_simps)
  have slot: "handle_right all_zones True ((at_zone 2)\<lparr>savestate_slot := 8\<rparr>)
       = Inr ((at_zone 2)\<lparr>savestate_slot := 0, screen_refresh := True\<rparr>)"
    "handle_left all_zones True (at_zone 2)
       = Inr ((at_zone 2)\<lparr>savestate_slot := 8, screen_refresh := True\<rparr>)"
    by (simp_all add: handle_right_def handle_left_def item_in_range_def nb_menu_zones_def
        zone_is_def c_rem_def MAX_SAVE_SLOTS_def at_zone_simps init_menu_zones_all_zones
        all_zones_simps)
  show ?thesis
    using h rdy run slot left_right_keep_ranges [OF h, of ?q]
    by simp
qed

subsection \<open>The quit signal\<close>

lemma quit_seen_exits:
  "quit_seen s \<Longrightarrow> session_over s \<and> result_code s = MENU_RETURN_EXIT"
  by (auto simp: quit_seen_def session_over_def result_code_def)

lemma handle_event_may_return:
  assumes "returned s = None"
  shows "on_result may_return (handle_event cfg e s)"
proof -
  obtain ev ok where e: "e = (ev, ok)" by (cases e)
  have c: "on_result may_return (handle_confirm cfg ok s)"
    using assms by (simp add: handle_confirm_def Let_def emit_def ask_confirmation_def may_return_def)
  have l: "on_result may_return (handle_left cfg ok s)"
    using assms by (simp add: handle_left_def Let_def emit_def may_return_def)
  have r: "on_result may_return (handle_right cfg ok s)"
    using assms by (simp add: handle_right_def Let_def emit_def may_return_def)
  have d: "on_result may_return (handle_down cfg s)"
    using assms by (simp add: handle_down_def Let_def may_return_def)
  have u: "on_result may_return (handle_up cfg s)"
    using assms by (simp add: handle_up_def Let_def may_return_def)
  have o: "may_return (handle_cancel s)" "may_return (handle_escape cfg s)" "may_return (handle_quit s)" "may_return s"
    using assms by (simp_all add: handle_cancel_def handle_escape_def handle_quit_def may_return_def)
  show ?thesis
  proof (cases ev)
    case (SDL_KEYDOWN k)
    show ?thesis unfolding e SDL_KEYDOWN using c l r d u o by (cases k) simp_all
  qed (use e o in simp_all)
qed

lemma handle_event_quit_seen:
  assumes "quit_seen s" "returned s = None"
  shows "on_result quit_seen (handle_event cfg e s)"
proof -
  obtain ev ok where e: "e = (ev, ok)" by (cases e)
  have c: "on_result quit_seen (handle_confirm cfg ok s)"
    using assms by (simp add: handle_confirm_def Let_def emit_def ask_confirmation_def quit_seen_def)
  have l: "on_result quit_seen (handle_left cfg ok s)"
    using assms by (simp add: handle_left_def Let_def emit_def quit_seen_def)
  have r: "on_result quit_seen (handle_right cfg ok s)"
    using assms by (simp add: handle_right_def Let_def emit_def quit_seen_def)
  have d: "on_result quit_seen (handle_down cfg s)"
    using assms by (simp add: handle_down_def Let_def quit_seen_def)
  have u: "on_result quit_seen (handle_up cfg s)"
    using assms by (simp add: handle_up_def Let_def quit_seen_def)
  have o: "quit_seen (handle_cancel s)" "quit_seen (handle_escape cfg s)" "quit_seen (handle_quit s)" "quit_seen s"
    using assms by (simp_all add: handle_cancel_def handle_escape_def handle_quit_def quit_seen_def)
  show ?thesis
  proof (cases ev)
    case (SDL_KEYDOWN k)
    show ?thesis unfolding e SDL_KEYDOWN using c l r d u o by (cases k) simp_all
  qed (use e o in simp_all)
qed

lemma poll_events_quit_seen:
  "quit_seen s \<Longrightarrow> returned s = None \<Longrightarrow> on_result quit_seen (poll_events cfg q s)"
proof (induction q arbitrary: s)
  case Nil
  then show ?case by simp
next
  case (Cons e q)
  show ?case
  proof (cases "handle_event cfg e s")
    case (Inl f)
    then show ?thesis by simp
  next
    case (Inr s1)
    have q1: "quit_seen s1"
      using handle_event_quit_seen [OF Cons.prems, of cfg e] Inr by simp
    show ?thesis using Inr q1 Cons.IH [OF q1] by simp
  qed
qed

lemma poll_events_quit:
  "returned s = None \<Longrightarrow> SDL_QUIT \<in> fst ` set q \<Longrightarrow> on_result quit_seen (poll_events cfg q s)"
proof (induction q arbitrary: s)
  case Nil
  then show ?case by simp
next
  case (Cons e q)
  obtain ev ok where e: "e = (ev, ok)" by (cases e)
  show ?case
  proof (cases "ev = SDL_QUIT")
    case True
    have "quit_seen (handle_quit s)" "returned (handle_quit s) = None"
      using Cons.prems(1) by (simp_all add: handle_quit_def quit_seen_def)
    then show ?thesis
      using poll_events_quit_seen [of "handle_quit s" cfg q] e True by simp
  next
    case False
    with Cons.prems(2) e have rest: "SDL_QUIT \<in> fst ` set q" by auto
    show ?thesis
    proof (cases "handle_event cfg e s")
      case (Inl f)
      then show ?thesis by simp
    next
      case (Inr s1)
      have m: "may_return s1"
        using handle_event_may_return [OF Cons.prems(1), of cfg e] Inr by simp
      show ?thesis
      proof (cases "returned s1 = None")
        case True
        then show ?thesis using Inr Cons.IH [OF True rest] by simp
      next
        case False
        with m have "quit_seen s1" by (auto simp: may_return_def quit_seen_def)
        with False Inr show ?thesis by simp
      qed
    qed
  qed
qed

lemma handle_scroll_fields:
  "returned (handle_scroll s) = returned s"
  "stop_menu_loop (handle_scroll s) = stop_menu_loop s"
  "returnCode (handle_scroll s) = returnCode s"
  by (simp_all add: handle_scroll_def scroll_commit_def scroll_advance_def)

lemma frame_after_poll:
  assumes "on_result quit_seen r"
  shows "on_result quit_seen
     (case r of Inl f \<Rightarrow> Inl f
      | Inr s1 \<Rightarrow> if returned s1 \<noteq> None then Inr s1
          else (let s2 = handle_scroll s1;
                    s3 = (if screen_refresh s2 then emit [refresh_frame s2] s2 else s2)
                in Inr (s3\<lparr>screen_refresh := False\<rparr>)))"
  using assms
  by (cases r)
     (auto simp add: Let_def quit_seen_def handle_scroll_fields emit_def)

lemma frame_quit:
  assumes "returned s = None" "scroll s = 0" "SDL_QUIT \<in> fst ` set q"
  shows "on_result quit_seen (frame cfg q s)"
  unfolding frame_def using frame_after_poll [OF poll_events_quit [OF assms(1,3)], of cfg] assms(2)
  by simp

lemma menu_loop_stopped: "stop_menu_loop s \<Longrightarrow> menu_loop cfg arrivals q s = Inr s"
  by (cases arrivals) simp_all

text \<open>
  C7. In a frame that polls its queue (the loop running, no scroll under way) and finds
  the quit signal there: the handler of the signal sets the stop flag and the result
  Exit whatever the confirmation flag is; the frame is the last one of the loop, however
  many arrivals follow; and the session is over with the result
  \<^verbatim>\<open>MENU_RETURN_EXIT\<close>, not \<^verbatim>\<open>MENU_RETURN_OK\<close>. The events queued after the signal
  are still handled in that frame, and none of them takes the result back.
\<close>

theorem quit_stops_loop:
  assumes "returned s = None" and "\<not> stop_menu_loop s" and "scroll s = 0"
    and "SDL_QUIT \<in> fst ` set (q @ arr)"
  shows "handle_event cfg (SDL_QUIT, ok) s =
           Inr (s\<lparr>stop_menu_loop := True, returnCode := MENU_RETURN_EXIT\<rparr>)
       \<and> menu_loop cfg (arr # arrivals) q s = frame cfg (q @ arr) s
       \<and> (\<forall>s'. menu_loop cfg (arr # arrivals) q s = Inr s' \<longrightarrow>
             session_over s' \<and> result_code s' = MENU_RETURN_EXIT
             \<and> result_code s' \<noteq> MENU_RETURN_OK)"
proof -
  have f: "on_result quit_seen (frame cfg (q @ arr) s)"
    using frame_quit [OF assms(1,3,4)] .
  have l: "menu_loop cfg (arr # arrivals) q s = frame cfg (q @ arr) s"
  proof (cases "frame cfg (q @ arr) s")
    case (Inl f)
    then show ?thesis using assms(2) by simp
  next
    case (Inr s')
    with f have "quit_seen s'" by simp
    then have "returned s' \<noteq> None \<or> stop_menu_loop s'" by (auto simp: quit_seen_def)
    then show ?thesis using assms(2) Inr by (auto simp: menu_loop_stopped)
  qed
  have e: "\<forall>s'. frame cfg (q @ arr) s = Inr s' \<longrightarrow>
      session_over s' \<and> result_code s' = MENU_RETURN_EXIT"
    using f quit_seen_exits by auto
  show ?thesis using l e by (simp add: handle_quit_def)
qed

text \<open>
  On the Save zone with a confirmation pending, the signal ends the loop with the result
  Exit; the Down that arrives a frame later is not looked at.
\<close>

theorem quit_stops_loop_witness:
  "returned ((at_zone 2)\<lparr>menu_confirmation := True\<rparr>) = None
   \<and> \<not> stop_menu_loop ((at_zone 2)\<lparr>menu_confirmation := True\<rparr>)
   \<and> scroll ((at_zone 2)\<lparr>menu_confirmation := True\<rparr>) = 0
   \<and> menu_loop all_zones [[(SDL_QUIT, True)], [(SDL_KEYDOWN SDLK_DOWN, True)]] []
        ((at_zone 2)\<lparr>menu_confirmation := True\<rparr>)
       = Inr ((at_zone 2)\<lparr>menu_confirmation := True, stop_menu_loop := True,
                returnCode := MENU_RETURN_EXIT\<rparr>)
   \<and> session_over ((at_zone 2)\<lparr>menu_confirmation := True, stop_menu_loop := True,
                returnCode := MENU_RETURN_EXIT\<rparr>)
   \<and> result_code ((at_zone 2)\<lparr>menu_confirmation := True, stop_menu_loop := True,
                returnCode := MENU_RETURN_EXIT\<rparr>) = MENU_RETURN_EXIT"
proof -
  let ?s = "(at_zone 2)\<lparr>menu_confirmation := True\<rparr>"
  have h: "returned ?s = None" "\<not> stop_menu_loop ?s" "scroll ?s = 0"
    "SDL_QUIT \<in> fst ` set ([] @ [(SDL_QUIT, True)])"
    by (simp_all add: at_zone_simps)
  have fr: "frame all_zones ([] @ [(SDL_QUIT, True)]) ?s
     = Inr ((at_zone 2)\<lparr>menu_confirmation := True, stop_menu_loop := True,
                returnCode := MENU_RETURN_EXIT\<rparr>)"
    by (simp add: frame_def handle_quit_def handle_scroll_def scroll_advance_def
        scroll_commit_def MENU_ZONE_HEIGHT_def at_zone_simps)
  show ?thesis
    using h fr quit_stops_loop [OF h, of all_zones True "[[(SDL_KEYDOWN SDLK_DOWN, True)]]"]
    by simp
qed

subsection \<open>The scroll effect\<close>

lemma handle_event_scroll:
  "on_result (\<lambda>s'. scroll s' = scroll s) (handle_event cfg e s)"
proof -
  obtain ev ok where e: "e = (ev, ok)" by (cases e)
  have c: "on_result (\<lambda>s'. scroll s' = scroll s) (handle_confirm cfg ok s)"
    by (simp add: handle_confirm_def Let_def emit_def ask_confirmation_def)
  have l: "on_result (\<lambda>s'. scroll s' = scroll s) (handle_left cfg ok s)"
    by (simp add: handle_left_def Let_def emit_def)
  have r: "on_result (\<lambda>s'. scroll s' = scroll s) (handle_right cfg ok s)"
    by (simp add: handle_right_def Let_def emit_def)
  have d: "on_result (\<lambda>s'. scroll s' = scroll s) (handle_down cfg s)"
    by (simp add: handle_down_def Let_def)
  have u: "on_result (\<lambda>s'. scroll s' = scroll s) (handle_up cfg s)"
    by (simp add: handle_up_def Let_def)
  have o: "scroll (handle_cancel s) = scroll s" "scroll (handle_escape cfg s) = scroll s"
    "scroll (handle_quit s) = scroll s"
    by (simp_all add: handle_cancel_def handle_escape_def handle_quit_def)
  show ?thesis
  proof (cases ev)
    case (SDL_KEYDOWN k)
    show ?thesis unfolding e SDL_KEYDOWN using c l r d u o by (cases k) simp_all
  qed (use e o in simp_all)
qed

lemma poll_events_scroll:
  "on_result (\<lambda>s'. scroll s' = scroll s) (poll_events cfg q s)"
proof (induction q arbitrary: s)
  case Nil
  then show ?case by simp
next
  case (Cons e q)
  show ?case
  proof (cases "handle_event cfg e s")
    case (Inl f)
    then show ?thesis by simp
  next
    case (Inr s1)
    have "scroll s1 = scroll s" using handle_event_scroll [of s cfg e] Inr by simp
    then show ?thesis using Inr Cons.IH [of s1] by simp
  qed
qed

lemma handle_scroll_settles:
  assumes "- MENU_ZONE_HEIGHT < scroll s" and "scroll s < MENU_ZONE_HEIGHT"
    and "scroll s = 0 \<or> start_scroll s = 0"
  shows "scroll_settled (handle_scroll s)"
  using assms
  by (auto simp: scroll_settled_def handle_scroll_def scroll_advance_def scroll_commit_def
      SCROLL_SPEED_PX_def MENU_ZONE_HEIGHT_def min_def)

text \<open>
  The frames keep the scroll settled, and the state that enters the scroll effect is as
  the theorem below assumes: the offset strictly inside the zone height and, when it is
  not 0, no start pending (the events are polled only at offset 0).
\<close>

lemma frame_scroll_settled:
  assumes "scroll_settled s"
  shows "on_result (\<lambda>s'. returned s' = None \<longrightarrow> scroll_settled s') (frame cfg q s)"
proof (cases "scroll s = 0")
  case True
  show ?thesis
  proof (cases "poll_events cfg q s")
    case (Inl f)
    then show ?thesis using True by (simp add: frame_def)
  next
    case (Inr s1)
    have "scroll s1 = 0" using poll_events_scroll [of s cfg q] Inr True by simp
    then have "scroll_settled (handle_scroll s1)"
      by (intro handle_scroll_settles) (simp_all add: MENU_ZONE_HEIGHT_def)
    then show ?thesis using True Inr
      by (auto simp add: frame_def Let_def scroll_settled_def emit_def)
  qed
next
  case False
  have "scroll_settled (handle_scroll s)"
    using assms by (intro handle_scroll_settles) (simp_all add: scroll_settled_def)
  then show ?thesis using False
    by (auto simp add: frame_def Let_def scroll_settled_def emit_def)
qed

text \<open>
  C3. In a frame that has a scroll under way or just started (the offset strictly
  between -240 and 240, and never both an offset and a fresh start), the offset moves
  by min(30, 240 - |offset|) in the direction of the scroll; its magnitude grows and
  stays at most 240; and when it reaches 240 the same frame sets the previous item to
  the current item and the offset to 0.
\<close>

theorem scroll_advance_and_commit:
  assumes "- MENU_ZONE_HEIGHT < scroll s" and "scroll s < MENU_ZONE_HEIGHT"
    and "scroll s = 0 \<or> start_scroll s = 0"
    and "scroll s \<noteq> 0 \<or> start_scroll s \<noteq> 0"
  shows "scroll (scroll_advance s) =
           scroll s + (if scroll s > 0 \<or> start_scroll s > 0 then 1 else - 1)
                        * min 30 (240 - \<bar>scroll s\<bar>)
       \<and> \<bar>scroll s\<bar> < \<bar>scroll (scroll_advance s)\<bar>
       \<and> \<bar>scroll (scroll_advance s)\<bar> \<le> 240
       \<and> handle_scroll s =
           (if \<bar>scroll (scroll_advance s)\<bar> = 240
            then (scroll_advance s)\<lparr>prevItem := menuItem s, scroll := 0,
                                    screen_refresh := True\<rparr>
            else scroll_advance s)"
  using assms
  by (auto simp: scroll_advance_def scroll_commit_def handle_scroll_def SCROLL_SPEED_PX_def
      MENU_ZONE_HEIGHT_def min_def)

text \<open>
  At offset 210 the step of 30 reaches 240 and the same call commits: previous item 1,
  offset 0. A fresh Up start at offset 0 moves to -30.
\<close>

theorem scroll_advance_and_commit_witness:
  "- MENU_ZONE_HEIGHT < scroll ((at_zone 1)\<lparr>prevItem := 0, scroll := 210\<rparr>)
   \<and> scroll ((at_zone 1)\<lparr>prevItem := 0, scroll := 210\<rparr>) < MENU_ZONE_HEIGHT
   \<and> start_scroll ((at_zone 1)\<lparr>prevItem := 0, scroll := 210\<rparr>) = 0
   \<and> scroll (scroll_advance ((at_zone 1)\<lparr>prevItem := 0, scroll := 210\<rparr>)) = 240
   \<and> handle_scroll ((at_zone 1)\<lparr>prevItem := 0, scroll := 210\<rparr>)
       = (at_zone 1)\<lparr>prevItem := 1, scroll := 0, screen_refresh := True\<rparr>
   \<and> handle_scroll ((at_zone 1)\<lparr>prevItem := 0, start_scroll := - 1\<rparr>)
       = (at_zone 1)\<lparr>prevItem := 0, scroll := - 30, start_scroll := 0, screen_refresh := True\<rparr>"
proof -
  let ?s = "(at_zone 1)\<lparr>prevItem := 0, scroll := 210\<rparr>"
  let ?t = "(at_zone 1)\<lparr>prevItem := 0, start_scroll := - 1\<rparr>"
  have hs: "- MENU_ZONE_HEIGHT < scroll ?s" "scroll ?s < MENU_ZONE_HEIGHT"
    "scroll ?s = 0 \<or> start_scroll ?s = 0" "scroll ?s \<noteq> 0 \<or> start_scroll ?s \<noteq> 0"
    by (simp_all add: MENU_ZONE_HEIGHT_def at_zone_simps)
  have ht: "- MENU_ZONE_HEIGHT < scroll ?t" "scroll ?t < MENU_ZONE_HEIGHT"
    "scroll ?t = 0 \<or> start_scroll ?t = 0" "scroll ?t \<noteq> 0 \<or> start_scroll ?t \<noteq> 0"
    by (simp_all add: MENU_ZONE_HEIGHT_def at_zone_simps)
  have a: "scroll_advance ?s = (at_zone 1)\<lparr>prevItem := 0, scroll := 240, screen_refresh := True\<rparr>"
    "scroll_advance ?t = (at_zone 1)\<lparr>prevItem := 0, scroll := - 30, start_scroll := 0, screen_refresh := True\<rparr>"
    by (simp_all add: scroll_advance_def SCROLL_SPEED_PX_def MENU_ZONE_HEIGHT_def at_zone_simps)
  show ?thesis
    using hs scroll_advance_and_commit [OF hs] scroll_advance_and_commit [OF ht] a
    by (simp add: at_zone_simps)
qed

subsection \<open>Volume and brightness steps\<close>

lemma handle_right_volume:
  assumes "HAS_MENU_VOLUME cfg" and "item_in_range s" and "zone_is s MENU_TYPE_VOLUME"
  shows "handle_right cfg ok s =
    Inr (s\<lparr>volume_percentage :=
             (if volume_percentage s > 100 - STEP_CHANGE_VOLUME cfg then 100
              else volume_percentage s + STEP_CHANGE_VOLUME cfg),
           effects := effects s @
             Run (SHELL_CMD_VOLUME_SET
                   (if volume_percentage s > 100 - STEP_CHANGE_VOLUME cfg then 100
                    else volume_percentage s + STEP_CHANGE_VOLUME cfg))
             # (if ok then [] else [Log_failed_to_run]),
           screen_refresh := True\<rparr>)"
  using assms by (simp add: handle_right_def emit_def Let_def)

lemma handle_left_volume:
  assumes "HAS_MENU_VOLUME cfg" and "item_in_range s" and "zone_is s MENU_TYPE_VOLUME"
  shows "handle_left cfg ok s =
    Inr (s\<lparr>volume_percentage :=
             (if volume_percentage s < STEP_CHANGE_VOLUME cfg then 0
              else volume_percentage s - STEP_CHANGE_VOLUME cfg),
           effects := effects s @
             Run (SHELL_CMD_VOLUME_SET
                   (if volume_percentage s < STEP_CHANGE_VOLUME cfg then 0
                    else volume_percentage s - STEP_CHANGE_VOLUME cfg))
             # (if ok then [] else [Log_failed_to_run]),
           screen_refresh := True\<rparr>)"
  using assms by (simp add: handle_left_def emit_def Let_def)

text \<open>
  C2, as amended. On the Volume zone, Right sets the in-memory volume to the value one
  step up, capped at 100, and Left to the value one step down, floored at 0; the
  command to set the volume is run with the new value; when the command does not start,
  that is logged and the new value stays. With the volume at 40 and a step of 10, two
  presses of Right run the command with 50 and then with 60 and leave the volume at 60,
  whatever the two commands report.
\<close>

theorem volume_step_applied_regardless:
  assumes "HAS_MENU_VOLUME cfg" and "item_in_range s" and "zone_is s MENU_TYPE_VOLUME"
  shows "handle_right cfg ok s =
    Inr (s\<lparr>volume_percentage :=
             (if volume_percentage s > 100 - STEP_CHANGE_VOLUME cfg then 100
              else volume_percentage s + STEP_CHANGE_VOLUME cfg),
           effects := effects s @
             Run (SHELL_CMD_VOLUME_SET
                   (if volume_percentage s > 100 - STEP_CHANGE_VOLUME cfg then 100
                    else volume_percentage s + STEP_CHANGE_VOLUME cfg))
             # (if ok then [] else [Log_failed_to_run]),
           screen_refresh := True\<rparr>)
   \<and> handle_left cfg ok s =
    Inr (s\<lparr>volume_percentage :=
             (if volume_percentage s < STEP_CHANGE_VOLUME cfg then 0
              else volume_percentage s - STEP_CHANGE_VOLUME cfg),
           effects := effects s @
             Run (SHELL_CMD_VOLUME_SET
                   (if volume_percentage s < STEP_CHANGE_VOLUME cfg then 0
                    else volume_percentage s - STEP_CHANGE_VOLUME cfg))
             # (if ok then [] else [Log_failed_to_run]),
           screen_refresh := True\<rparr>)
   \<and> (returned s = None \<and> volume_percentage s = 40 \<and> STEP_CHANGE_VOLUME cfg = 10 \<longrightarrow>
        poll_events cfg [(SDL_KEYDOWN SDLK_RIGHT, ok1), (SDL_KEYDOWN SDLK_RIGHT, ok2)] s =
          Inr (s\<lparr>volume_percentage := 60,
                 effects := effects s
                   @ Run (SHELL_CMD_VOLUME_SET 50) # (if ok1 then [] else [Log_failed_to_run])
                   @ Run (SHELL_CMD_VOLUME_SET 60) # (if ok2 then [] else [Log_failed_to_run]),
                 screen_refresh := True\<rparr>))"
proof -
  have two: "poll_events cfg [(SDL_KEYDOWN SDLK_RIGHT, ok1), (SDL_KEYDOWN SDLK_RIGHT, ok2)] s =
          Inr (s\<lparr>volume_percentage := 60,
                 effects := effects s
                   @ Run (SHELL_CMD_VOLUME_SET 50) # (if ok1 then [] else [Log_failed_to_run])
                   @ Run (SHELL_CMD_VOLUME_SET 60) # (if ok2 then [] else [Log_failed_to_run]),
                 screen_refresh := True\<rparr>)"
    if h: "returned s = None" "volume_percentage s = 40" "STEP_CHANGE_VOLUME cfg = 10"
  proof -
    let ?s1 = "s\<lparr>volume_percentage := 50,
           effects := effects s @ Run (SHELL_CMD_VOLUME_SET 50)
             # (if ok1 then [] else [Log_failed_to_run]),
           screen_refresh := True\<rparr>"
    have 1: "handle_right cfg ok1 s = Inr ?s1"
      using handle_right_volume [OF assms, of ok1] h by simp
    have r1: "HAS_MENU_VOLUME cfg" "item_in_range ?s1" "zone_is ?s1 MENU_TYPE_VOLUME"
      using assms by (simp_all add: item_in_range_def nb_menu_zones_def zone_is_def)
    have 2: "handle_right cfg ok2 ?s1 = Inr (s\<lparr>volume_percentage := 60,
                 effects := effects s
                   @ Run (SHELL_CMD_VOLUME_SET 50) # (if ok1 then [] else [Log_failed_to_run])
                   @ Run (SHELL_CMD_VOLUME_SET 60) # (if ok2 then [] else [Log_failed_to_run]),
                 screen_refresh := True\<rparr>)"
      using handle_right_volume [OF r1, of ok2] h by simp
    show ?thesis using 1 2 h by simp
  qed
  show ?thesis
    using handle_right_volume [OF assms, of ok] handle_left_volume [OF assms, of ok] two
    by blast
qed

text \<open>
  C2 as stated fails: at 40 per cent, a Right whose command does not start (the failure
  is logged) leaves the in-memory volume at 50, not at 40.
\<close>

theorem volume_changes_on_failed_command:
  "handle_right all_zones False ((at_zone 0)\<lparr>volume_percentage := 40\<rparr>)
     = Inr ((at_zone 0)\<lparr>volume_percentage := 50, screen_refresh := True,
              effects := [Run (SHELL_CMD_VOLUME_SET 50), Log_failed_to_run]\<rparr>)"
  by (simp add: handle_right_def item_in_range_def nb_menu_zones_def zone_is_def emit_def
      at_zone_simps init_menu_zones_all_zones all_zones_simps)

text \<open>
  The scenario on the reference configuration, the first command failing: 50, a log
  line, 60.
\<close>

theorem volume_step_applied_regardless_witness:
  "HAS_MENU_VOLUME all_zones \<and> item_in_range ((at_zone 0)\<lparr>volume_percentage := 40\<rparr>)
   \<and> zone_is ((at_zone 0)\<lparr>volume_percentage := 40\<rparr>) MENU_TYPE_VOLUME
   \<and> poll_events all_zones [(SDL_KEYDOWN SDLK_RIGHT, False), (SDL_KEYDOWN SDLK_RIGHT, True)]
        ((at_zone 0)\<lparr>volume_percentage := 40\<rparr>)
      = Inr ((at_zone 0)\<lparr>volume_percentage := 60, screen_refresh := True,
               effects := [Run (SHELL_CMD_VOLUME_SET 50), Log_failed_to_run,
                           Run (SHELL_CMD_VOLUME_SET 60)]\<rparr>)"
proof -
  let ?s = "(at_zone 0)\<lparr>volume_percentage := 40\<rparr>"
  have h: "HAS_MENU_VOLUME all_zones" "item_in_range ?s" "zone_is ?s MENU_TYPE_VOLUME"
    by (simp_all add: item_in_range_def nb_menu_zones_def zone_is_def at_zone_simps
        init_menu_zones_all_zones all_zones_simps)
  show ?thesis
    using h volume_step_applied_regardless [OF h, of True False True]
    by (simp add: at_zone_simps all_zones_simps)
qed

subsection \<open>The probe at the start of a session\<close>

lemma fgets_chars_numeral [simp]:
  "fgets_chars (numeral n) [] = []"
  "fgets_chars (numeral n) (c # cs) =
     (if c = CHR 0x0A then [c] else c # fgets_chars (pred_numeral n) cs)"
  by (simp_all add: numeral_eq_Suc)

lemma fgets_nonempty: "out \<noteq> [] \<Longrightarrow> fgets 99 out buf = fgets_chars 98 out"
  by (simp add: fgets_def)

lemma first_is_digit_fgets_chars:
  "first_is_digit (fgets_chars (Suc n) out) = first_is_digit out"
  by (cases out) (simp_all add: first_is_digit_def)

lemma first_is_digit_nonempty: "first_is_digit out \<Longrightarrow> out \<noteq> []"
  by (auto simp: first_is_digit_def)

lemma is_digit_not_space: "is_digit c \<Longrightarrow> \<not> is_space c"
  by (auto simp: is_digit_def is_space_def)

lemma is_digit_not_sign: "is_digit c \<Longrightarrow> c \<noteq> CHR ''-'' \<and> c \<noteq> CHR ''+''"
  by (auto simp: is_digit_def)

lemma atoi_digits:
  assumes "first_is_digit str"
  shows "atoi str =
     (if - 2147483648 \<le> digits_value 0 str \<and> digits_value 0 str \<le> 2147483647
      then Inr (digits_value 0 str) else Inl IntOverflow)"
proof -
  from assms obtain c cs where s: "str = c # cs" "is_digit c"
    by (cases str) (auto simp: first_is_digit_def)
  then have "dropWhile is_space str = str" by (simp add: is_digit_not_space)
  then show ?thesis using s is_digit_not_sign [of c]
    by (auto simp add: atoi_def Let_def)
qed

lemma probe_percentage_digit:
  assumes "first_is_digit out"
  shows "probe_percentage cmd (Some out) buf =
     (if - 2147483648 \<le> digits_value 0 (fgets_chars 98 out)
          \<and> digits_value 0 (fgets_chars 98 out) \<le> 2147483647
      then Inr (fgets_chars 98 out, [Run cmd], digits_value 0 (fgets_chars 98 out))
      else Inl IntOverflow)"
proof -
  have ne: "out \<noteq> []" using assms by (rule first_is_digit_nonempty)
  have f: "first_is_digit (fgets_chars 98 out)"
    using assms first_is_digit_fgets_chars [of 97 out] by simp
  show ?thesis
    by (simp add: probe_percentage_def fgets_nonempty [OF ne] f atoi_digits [OF f] Let_def)
qed

text \<open>
  The part of the default rule that the code keeps: the command does not start, or it
  prints something that does not begin with a digit. Then the percentage is 50 and a
  line is logged.
\<close>

lemma probe_percentage_default:
  assumes "answer = None \<or> (\<exists>c cs. answer = Some (c # cs) \<and> \<not> is_digit c)"
  shows "\<exists>buf' l. probe_percentage cmd answer buf = Inr (buf', [Run cmd, l], 50)
           \<and> (l = Log_failed_to_run \<or> l = Log_wrong_return_value buf' cmd)"
  using assms
proof
  assume "answer = None"
  then show ?thesis by (simp add: probe_percentage_def)
next
  assume "\<exists>c cs. answer = Some (c # cs) \<and> \<not> is_digit c"
  then obtain c cs where a: "answer = Some (c # cs)" "\<not> is_digit c" by blast
  have "\<not> first_is_digit (fgets 99 (c # cs) buf)"
    using a(2) first_is_digit_fgets_chars [of 97 "c # cs"]
    by (simp add: fgets_nonempty first_is_digit_def)
  then show ?thesis using a by (simp add: probe_percentage_def Let_def)
qed

lemma probe_usb_values:
  "on_result (\<lambda>s'. volume_percentage s' = volume_percentage s
      \<and> brightness_percentage s' = brightness_percentage s) (probe_usb env s)"
  by (simp add: probe_usb_def Let_def emit_def split: option.splits)

lemma probe_usbD:
  "probe_usb env s = Inr s' \<Longrightarrow> volume_percentage s' = volume_percentage s
      \<and> brightness_percentage s' = brightness_percentage s"
  using probe_usb_values [of s env] by simp

lemma init_volume_digit:
  assumes "HAS_MENU_VOLUME cfg" and "volume_get env = Some out" and "first_is_digit out"
    and "init_menu_system_values cfg env s = Inr s'"
  shows "volume_percentage s' = digits_value 0 (fgets_chars 98 out)"
  using assms(1,2,4)
  by (auto simp: init_menu_system_values_def probe_percentage_digit [OF assms(3)] emit_def
      split: if_splits sum.splits prod.splits dest: probe_usbD)

lemma init_brightness_digit:
  assumes "HAS_MENU_BRIGHTNESS cfg" and "brightness_get env = Some out" and "first_is_digit out"
    and "init_menu_system_values cfg env s = Inr s'"
  shows "brightness_percentage s' = digits_value 0 (fgets_chars 98 out)"
  using assms(1,2,4)
  by (auto simp: init_menu_system_values_def probe_percentage_digit [OF assms(3)] emit_def
      split: if_splits sum.splits prod.splits dest: probe_usbD)

lemma init_probe_150:
  "init_menu_system_values all_zones probe_150 (at_zone 0) =
     Inr ((at_zone 0)\<lparr>volume_percentage := 150, brightness_percentage := 50,
            effects := [Run SHELL_CMD_VOLUME_GET, Run SHELL_CMD_BRIGHTNESS_GET,
                        Log_failed_to_run, Run SHELL_CMD_USB_DATA_CONNECTED,
                        Run SHELL_CMD_USB_CHECK_IS_SHARING]\<rparr>)"
  by (simp add: init_menu_system_values_def probe_percentage_def probe_usb_def probe_150_def
      fgets_def first_is_digit_def is_digit_def is_space_def atoi_def emit_def
      item_in_range_def nb_menu_zones_def zone_is_def Let_def
      at_zone_def FK_InitMenu_def init_menu_zones_all_zones all_zones_simps)

text \<open>
  C8 at the input where the code departs from it: the volume command prints 70, the
  brightness command starts and prints nothing. \<^verbatim>\<open>fgets\<close> leaves the buffer as the
  volume probe filled it, its first character is a digit, and the brightness becomes 70;
  no default of 50, no log line.
\<close>

theorem silent_brightness_probe_keeps_stale_value:
  "init_menu_system_values all_zones probe_silent_brightness (at_zone 0) =
     Inr ((at_zone 0)\<lparr>volume_percentage := 70, brightness_percentage := 70,
            effects := [Run SHELL_CMD_VOLUME_GET, Run SHELL_CMD_BRIGHTNESS_GET,
                        Run SHELL_CMD_USB_DATA_CONNECTED,
                        Run SHELL_CMD_USB_CHECK_IS_SHARING]\<rparr>)"
  by (simp add: init_menu_system_values_def probe_percentage_def probe_usb_def
      probe_silent_brightness_def
      fgets_def first_is_digit_def is_digit_def is_space_def atoi_def emit_def
      item_in_range_def nb_menu_zones_def zone_is_def Let_def
      at_zone_def FK_InitMenu_def init_menu_zones_all_zones all_zones_simps)

text \<open>
  C10. When the output of the volume (or brightness) command begins with a digit, the
  in-memory percentage after \<^verbatim>\<open>init_menu_system_values\<close> is the decimal value of the
  leading digits of the line read, with no clamp to [0,100]. From such a value above
  100 (and a step between 0 and 100), Right on the Volume zone gives exactly 100 and
  Left gives the value less one step.
\<close>

theorem probe_value_not_clamped:
  assumes "init_menu_system_values cfg env s = Inr s'" and "first_is_digit out"
  shows "(HAS_MENU_VOLUME cfg \<and> volume_get env = Some out \<longrightarrow>
            volume_percentage s' = digits_value 0 (fgets_chars 98 out))
       \<and> (HAS_MENU_BRIGHTNESS cfg \<and> brightness_get env = Some out \<longrightarrow>
            brightness_percentage s' = digits_value 0 (fgets_chars 98 out))
       \<and> (HAS_MENU_VOLUME cfg \<and> item_in_range s' \<and> zone_is s' MENU_TYPE_VOLUME
            \<and> 100 < volume_percentage s' \<and> 0 \<le> STEP_CHANGE_VOLUME cfg
            \<and> STEP_CHANGE_VOLUME cfg \<le> 100 \<longrightarrow>
            (\<exists>t. handle_right cfg ok s' = Inr t \<and> volume_percentage t = 100)
          \<and> (\<exists>t. handle_left cfg ok s' = Inr t
                 \<and> volume_percentage t = volume_percentage s' - STEP_CHANGE_VOLUME cfg))"
proof -
  have "(\<exists>t. handle_right cfg ok s' = Inr t \<and> volume_percentage t = 100)
      \<and> (\<exists>t. handle_left cfg ok s' = Inr t
             \<and> volume_percentage t = volume_percentage s' - STEP_CHANGE_VOLUME cfg)"
    if "HAS_MENU_VOLUME cfg" "item_in_range s'" "zone_is s' MENU_TYPE_VOLUME"
      "100 < volume_percentage s'" "0 \<le> STEP_CHANGE_VOLUME cfg" "STEP_CHANGE_VOLUME cfg \<le> 100"
    using that by (simp add: handle_right_volume handle_left_volume)
  then show ?thesis
    using init_volume_digit [OF _ _ assms(2,1)] init_brightness_digit [OF _ _ assms(2,1)]
    by blast
qed

text \<open>
  The volume command prints 150: the volume is 150 after the probe, Right makes it 100,
  Left makes it 140.
\<close>

theorem probe_value_not_clamped_witness:
  "init_menu_system_values all_zones probe_150 (at_zone 0) =
     Inr ((at_zone 0)\<lparr>volume_percentage := 150, brightness_percentage := 50,
            effects := [Run SHELL_CMD_VOLUME_GET, Run SHELL_CMD_BRIGHTNESS_GET,
                        Log_failed_to_run, Run SHELL_CMD_USB_DATA_CONNECTED,
                        Run SHELL_CMD_USB_CHECK_IS_SHARING]\<rparr>)
   \<and> first_is_digit ''150'' \<and> volume_get probe_150 = Some ''150''
   \<and> digits_value 0 (fgets_chars 98 ''150'') = 150
   \<and> handle_right all_zones True
        ((at_zone 0)\<lparr>volume_percentage := 150, brightness_percentage := 50,
           effects := [Run SHELL_CMD_VOLUME_GET, Run SHELL_CMD_BRIGHTNESS_GET,
                       Log_failed_to_run, Run SHELL_CMD_USB_DATA_CONNECTED,
                       Run SHELL_CMD_USB_CHECK_IS_SHARING]\<rparr>)
      = Inr ((at_zone 0)\<lparr>volume_percentage := 100, brightness_percentage := 50,
               screen_refresh := True,
               effects := [Run SHELL_CMD_VOLUME_GET, Run SHELL_CMD_BRIGHTNESS_GET,
                           Log_failed_to_run, Run SHELL_CMD_USB_DATA_CONNECTED,
                           Run SHELL_CMD_USB_CHECK_IS_SHARING,
                           Run (SHELL_CMD_VOLUME_SET 100)]\<rparr>)
   \<and> handle_left all_zones True
        ((at_zone 0)\<lparr>volume_percentage := 150, brightness_percentage := 50,
           effects := [Run SHELL_CMD_VOLUME_GET, Run SHELL_CMD_BRIGHTNESS_GET,
                       Log_failed_to_run, Run SHELL_CMD_USB_DATA_CONNECTED,
                       Run SHELL_CMD_USB_CHECK_IS_SHARING]\<rparr>)
      = Inr ((at_zone 0)\<lparr>volume_percentage := 140, brightness_percentage := 50,
               screen_refresh := True,
               effects := [Run SHELL_CMD_VOLUME_GET, Run SHELL_CMD_BRIGHTNESS_GET,
                           Log_failed_to_run, Run SHELL_CMD_USB_DATA_CONNECTED,
                           Run SHELL_CMD_USB_CHECK_IS_SHARING,
                           Run (SHELL_CMD_VOLUME_SET 140)]\<rparr>)"
proof -
  let ?s' = "(at_zone 0)\<lparr>volume_percentage := 150, brightness_percentage := 50,
            effects := [Run SHELL_CMD_VOLUME_GET, Run SHELL_CMD_BRIGHTNESS_GET,
                        Log_failed_to_run, Run SHELL_CMD_USB_DATA_CONNECTED,
                        Run SHELL_CMD_USB_CHECK_IS_SHARING]\<rparr>"
  have d: "first_is_digit ''150''" "volume_get probe_150 = Some ''150''"
    "digits_value 0 (fgets_chars 98 ''150'') = 150"
    by (simp_all add: first_is_digit_def is_digit_def probe_150_def)
  have z: "HAS_MENU_VOLUME all_zones" "item_in_range ?s'" "zone_is ?s' MENU_TYPE_VOLUME"
    by (simp_all add: item_in_range_def nb_menu_zones_def zone_is_def at_zone_simps
        init_menu_zones_all_zones all_zones_simps)
  have r: "handle_right all_zones True ?s'
      = Inr ((at_zone 0)\<lparr>volume_percentage := 100, brightness_percentage := 50,
               screen_refresh := True,
               effects := [Run SHELL_CMD_VOLUME_GET, Run SHELL_CMD_BRIGHTNESS_GET,
                           Log_failed_to_run, Run SHELL_CMD_USB_DATA_CONNECTED,
                           Run SHELL_CMD_USB_CHECK_IS_SHARING,
                           Run (SHELL_CMD_VOLUME_SET 100)]\<rparr>)"
    by (simp add: handle_right_volume [OF z] all_zones_simps)
  have l: "handle_left all_zones True ?s'
      = Inr ((at_zone 0)\<lparr>volume_percentage := 140, brightness_percentage := 50,
               screen_refresh := True,
               effects := [Run SHELL_CMD_VOLUME_GET, Run SHELL_CMD_BRIGHTNESS_GET,
                           Log_failed_to_run, Run SHELL_CMD_USB_DATA_CONNECTED,
                           Run SHELL_CMD_USB_CHECK_IS_SHARING,
                           Run (SHELL_CMD_VOLUME_SET 140)]\<rparr>)"
    by (simp add: handle_left_volume [OF z] all_zones_simps)
  show ?thesis
    using probe_value_not_clamped [OF init_probe_150 d(1), of True] d z r l init_probe_150
    by simp
qed

subsection \<open>The progress bar\<close>

declare full_bars_from.simps [simp del] empty_bars_from.simps [simp del]

lemma uint16_of_int: "fits_u16 k \<Longrightarrow> uint (word_of_int k :: 16 word) = k"
  by (simp add: fits_u16_def uint_word_of_int)

lemma fits_uint: "fits_u16 (uint (w :: 16 word))"
  using uint_lt2p [of w] by (simp add: fits_u16_def)

lemma fits_between: "0 \<le> k \<Longrightarrow> k \<le> uint (w :: 16 word) \<Longrightarrow> fits_u16 k"
  using uint_lt2p [of w] by (simp add: fits_u16_def)

lemma nb_bars_max_fits: "fits_u16 k \<Longrightarrow> fits_u16 ((k * 3 div 3 + 1) div 4)"
  unfolding fits_u16_def by simp linarith

lemma fits_div3: "fits_u16 k \<Longrightarrow> fits_u16 (k div 3)"
  unfolding fits_u16_def by linarith

lemma int_div_le_self: "0 \<le> (a::int) \<Longrightarrow> 0 \<le> b \<Longrightarrow> a div b \<le> a"
proof (cases "b = 0")
  case True
  assume "0 \<le> a"
  with True show ?thesis by simp
next
  case False
  assume "0 \<le> a" "0 \<le> b"
  with False show ?thesis using zdiv_mono2 [of a 1 b] by simp
qed

lemma cap_u16:
  assumes "0 \<le> c"
  shows "uint (if uint a > c then word_of_int c else (a :: 16 word)) = min (uint a) c"
proof (cases "uint a > c")
  case True
  then have "fits_u16 c" using assms fits_between [of c a] by simp
  then show ?thesis using True by (simp add: uint16_of_int)
next
  case False
  then show ?thesis by simp
qed

lemma raise_u16:
  "uint (if uint (a :: 16 word) < uint line_width * 2 + 1
         then word_of_int (uint line_width * 2 + 1) else a) = max (uint a) 3"
  by (simp add: line_width_def)

lemma cap_percentage:
  "uint (if uint (p :: 8 word) > 100 then 100 else p) = min (uint p) 100"
  by simp

lemma cap_nb_bars:
  "uint (if uint (n :: 16 word) > uint (m :: 16 word) then m else n) = min (uint n) (uint m)"
  by simp

text \<open>
  On a surface that is not empty the 16-bit arithmetic of \<^verbatim>\<open>Check values\<close> computes the
  layout of the specification and nothing wraps.
\<close>

lemma check_values_spec:
  assumes "1 \<le> surface_w surface" and "1 \<le> surface_h surface"
  shows "layout_fits (spec_bar_layout surface (uint x) (uint y) (uint width) (uint height)
            (uint percentage) (uint nb_bars))
       \<and> check_values surface x y width height percentage nb_bars =
          (if sp_nb_bars (spec_bar_layout surface (uint x) (uint y) (uint width) (uint height)
                (uint percentage) (uint nb_bars)) = 0
           then Inl DivisionByZero
           else Inr (to_bar_layout (spec_bar_layout surface (uint x) (uint y) (uint width)
                (uint height) (uint percentage) (uint nb_bars))))"
proof -
  let ?W = "surface_w surface" and ?H = "surface_h surface"
  define p1 where "p1 = (if uint percentage > 100 then 100 else percentage)"
  define x1 where "x1 = (if uint x > ?W - 1 then word_of_int (?W - 1) else x)"
  define y1 where "y1 = (if uint y > ?H - 1 then word_of_int (?H - 1) else y)"
  define w1 where "w1 = (if uint width < uint line_width * 2 + 1
                   then word_of_int (uint line_width * 2 + 1) else width)"
  define w2 where "w2 = (if uint w1 > ?W - uint x1 - 1
                   then word_of_int (?W - uint x1 - 1) else w1)"
  define h1 where "h1 = (if uint height < uint line_width * 2 + 1
                   then word_of_int (uint line_width * 2 + 1) else height)"
  define h2 where "h2 = (if uint h1 > ?H - uint y1 - 1
                   then word_of_int (?H - uint y1 - 1) else h1)"
  define nmax :: "16 word" where "nmax = word_of_int
            ((uint w2 * uint padding_bars_ratio div (uint line_width * 2 + 1) + 1)
               div (uint padding_bars_ratio + 1))"
  define n1 where "n1 = (if uint nb_bars > uint nmax then nmax else nb_bars)"
  define bw :: "16 word" where "bw = word_of_int
                 ((uint w2 div uint n1) * uint padding_bars_ratio
                    div (uint padding_bars_ratio + 1) + 1)"
  define pad :: "16 word" where "pad = word_of_int (uint bw div uint padding_bars_ratio)"
  define nf :: "16 word" where "nf = word_of_int (uint n1 * uint p1 div 100)"
  let ?S = "spec_bar_layout surface (uint x) (uint y) (uint width) (uint height)
            (uint percentage) (uint nb_bars)"
  have p: "uint p1 = min (uint percentage) 100" unfolding p1_def by (rule cap_percentage)
  have x: "uint x1 = min (uint x) (?W - 1)" unfolding x1_def using assms by (intro cap_u16) simp
  have y: "uint y1 = min (uint y) (?H - 1)" unfolding y1_def using assms by (intro cap_u16) simp
  have w1: "uint w1 = max (uint width) 3" unfolding w1_def by (rule raise_u16)
  have h1: "uint h1 = max (uint height) 3" unfolding h1_def by (rule raise_u16)
  have w2: "uint w2 = min (max (uint width) 3) (?W - uint x1 - 1)"
    unfolding w2_def using x by (subst cap_u16) (simp_all add: w1)
  have h2: "uint h2 = min (max (uint height) 3) (?H - uint y1 - 1)"
    unfolding h2_def using y by (subst cap_u16) (simp_all add: h1)
  have nmax_fits: "fits_u16 ((uint w2 * 3 div 3 + 1) div 4)"
    by (rule nb_bars_max_fits [OF fits_uint])
  have nmax: "uint nmax = (uint w2 * 3 div 3 + 1) div 4"
    unfolding nmax_def using nmax_fits
    by (simp add: uint16_of_int padding_bars_ratio_def line_width_def)
  have n1: "uint n1 = min (uint nb_bars) (uint nmax)" unfolding n1_def by (rule cap_nb_bars)
  have bw_fits: "fits_u16 ((uint w2 div uint n1) * 3 div 4 + 1)"
  proof -
    have "uint w2 div uint n1 \<le> uint w2"
      by (rule int_div_le_self) simp_all
    moreover have "0 \<le> uint w2 div uint n1" by (simp add: div_int_pos_iff)
    ultimately show ?thesis using uint_lt2p [of w2] by (simp add: fits_u16_def)
  qed
  have bw: "uint bw = (uint w2 div uint n1) * 3 div 4 + 1"
    unfolding bw_def using uint16_of_int [OF bw_fits] by (simp add: padding_bars_ratio_def)
  have pad: "uint pad = uint bw div 3"
  proof -
    have "fits_u16 (uint bw div 3)"
      by (rule fits_div3 [OF fits_uint])
    then show ?thesis unfolding pad_def by (simp add: uint16_of_int padding_bars_ratio_def)
  qed
  have nf_le: "uint n1 * uint p1 div 100 \<le> uint n1"
  proof -
    have "uint n1 * uint p1 \<le> uint n1 * 100" using p by (intro mult_left_mono) simp_all
    then have "uint n1 * uint p1 div 100 \<le> uint n1 * 100 div 100" by (rule zdiv_mono1) simp
    then show ?thesis by simp
  qed
  have nf: "uint nf = uint n1 * uint p1 div 100"
  proof -
    have "0 \<le> uint n1 * uint p1 div 100" by (simp add: pos_imp_zdiv_nonneg_iff)
    then have "fits_u16 (uint n1 * uint p1 div 100)" using nf_le by (rule fits_between)
    then show ?thesis unfolding nf_def by (simp add: uint16_of_int)
  qed
  have S: "?S = \<lparr>sp_percentage = uint p1, sp_x = uint x1, sp_y = uint y1, sp_width = uint w2,
       sp_height = uint h2, sp_nb_bars_max = uint nmax, sp_nb_bars = uint n1,
       sp_bar_width = uint bw, sp_bar_padding = uint pad, sp_filled = uint nf\<rparr>"
    unfolding spec_bar_layout_def Let_def p [symmetric] x [symmetric] y [symmetric]
      w2 [symmetric] h2 [symmetric] nmax [symmetric] n1 [symmetric] bw [symmetric]
      pad [symmetric] nf [symmetric] ..
  have fits: "layout_fits ?S"
    unfolding S by (simp add: layout_fits_def fits_uint)
  have cv: "check_values surface x y width height percentage nb_bars =
      (if n1 = 0 then Inl DivisionByZero
       else Inr \<lparr>bar_x = x1, bar_y = y1, bar_height = h2, bar_nb_bars = n1,
                   bar_width = bw, bar_padding_x = pad, nb_full_bars = nf\<rparr>)"
    unfolding check_values_def Let_def p1_def x1_def y1_def w1_def w2_def h1_def h2_def
      nmax_def n1_def bw_def pad_def nf_def ..
  have tb: "to_bar_layout ?S = \<lparr>bar_x = x1, bar_y = y1, bar_height = h2, bar_nb_bars = n1,
                   bar_width = bw, bar_padding_x = pad, nb_full_bars = nf\<rparr>"
    unfolding S by (simp add: to_bar_layout_def)
  have z: "sp_nb_bars ?S = 0 \<longleftrightarrow> n1 = 0"
    unfolding S by (simp add: uint_0_iff)
  show ?thesis using fits cv tb z by simp
qed


lemma full_bars_from_upto:
  "full_bars_from L i = concat (map (full_bar L) [i..uint (nb_full_bars L) - 1])"
proof (induction L i rule: full_bars_from.induct)
  case (1 L i)
  show ?case
  proof (cases "i < uint (nb_full_bars L)")
    case True
    then have "[i..uint (nb_full_bars L) - 1] = i # [i + 1..uint (nb_full_bars L) - 1]"
      by (simp add: upto_rec1)
    then show ?thesis using True 1 by (simp add: full_bars_from.simps [of L i])
  next
    case False
    then show ?thesis by (simp add: full_bars_from.simps [of L i])
  qed
qed

lemma empty_bars_from_upto:
  "empty_bars_from L i =
     concat (map (empty_bar L) [i..uint (bar_nb_bars L) - uint (nb_full_bars L) - 1])"
proof (induction L i rule: empty_bars_from.induct)
  case (1 L i)
  show ?case
  proof (cases "i < uint (bar_nb_bars L) - uint (nb_full_bars L)")
    case True
    then have "[i..uint (bar_nb_bars L) - uint (nb_full_bars L) - 1]
        = i # [i + 1..uint (bar_nb_bars L) - uint (nb_full_bars L) - 1]"
      by (simp add: upto_rec1)
    then show ?thesis using True 1 by (simp add: empty_bars_from.simps [of L i])
  next
    case False
    then show ?thesis by (simp add: empty_bars_from.simps [of L i])
  qed
qed

text \<open>At a multiple of the step, truncation and rounding agree.\<close>

lemma filled_at_multiples:
  assumes "0 < step" and "step dvd 100" and "step dvd p"
  shows "(100 div step) * p div 100 = p div (step :: int)"
proof -
  from assms(3) obtain k where k: "p = step * k" by (auto simp: dvd_def)
  from assms(2) obtain m where m: "100 = step * m" by (auto simp: dvd_def)
  have "step * m div step = m" using assms(1) by simp
  then have d: "100 div step = m" by (simp only: m [symmetric])
  have "(100 div step) * p div 100 = (m * step) * k div 100"
    using d k by (simp add: mult.assoc)
  also have "m * step = 100" using m by (simp add: mult.commute)
  also have "100 * k div 100 = k" by simp
  also have "k = p div step" using k assms(1) by simp
  finally show ?thesis .
qed

text \<open>
  C6. On a surface with at least one column and one row, \<^verbatim>\<open>draw_progress_bar\<close> works
  with the layout \<open>S\<close> of the specification: the percentage capped at 100; x, y, width
  and height inside the surface; the bar count capped at the largest count that fits
  the width for line width 1 and padding ratio 3; the filled count
  \<open>nb_bars * percentage div 100\<close>, truncated, and never more than the bar count. It
  draws the solid bars 0 to filled - 1 and then the hollow bars 0 to
  nb_bars - filled - 1 (a gray rectangle with a white one inside), and nothing else;
  when the capped bar count is 0 it divides by zero instead. Where the bar count is
  100 / step and the percentage is a multiple of the step, the filled count is
  percentage / step, which is the rounded quotient of the rendering summary.
\<close>

theorem draw_progress_bar_layout:
  assumes "1 \<le> surface_w surface" and "1 \<le> surface_h surface"
    and "S = spec_bar_layout surface (uint x) (uint y) (uint width) (uint height)
              (uint percentage) (uint nb_bars)"
  shows "layout_fits S
       \<and> sp_percentage S = min (uint percentage) 100
       \<and> sp_x S \<le> surface_w surface - 1 \<and> sp_y S \<le> surface_h surface - 1
       \<and> sp_x S + sp_width S \<le> surface_w surface - 1
       \<and> sp_y S + sp_height S \<le> surface_h surface - 1
       \<and> sp_nb_bars_max S = (sp_width S * 3 div 3 + 1) div 4
       \<and> sp_nb_bars S = min (uint nb_bars) (sp_nb_bars_max S)
       \<and> sp_filled S = sp_nb_bars S * sp_percentage S div 100
       \<and> sp_filled S \<le> sp_nb_bars S
       \<and> draw_progress_bar surface x y width height percentage nb_bars =
            (if sp_nb_bars S = 0 then Inl DivisionByZero
             else Inr (concat (map (full_bar (to_bar_layout S)) [0..sp_filled S - 1])
                       @ concat (map (empty_bar (to_bar_layout S))
                                   [0..sp_nb_bars S - sp_filled S - 1])))
       \<and> (\<forall>step. 0 < step \<and> step dvd 100 \<and> step dvd sp_percentage S
              \<and> sp_nb_bars S = 100 div step \<longrightarrow> sp_filled S = sp_percentage S div step)"
proof -
  have cs: "layout_fits S"
    "check_values surface x y width height percentage nb_bars =
       (if sp_nb_bars S = 0 then Inl DivisionByZero else Inr (to_bar_layout S))"
    using check_values_spec [OF assms(1,2), of x y width height percentage nb_bars]
    unfolding assms(3) by simp_all
  have fields: "sp_percentage S = min (uint percentage) 100"
    "sp_x S = min (uint x) (surface_w surface - 1)"
    "sp_y S = min (uint y) (surface_h surface - 1)"
    "sp_width S = min (max (uint width) 3) (surface_w surface - sp_x S - 1)"
    "sp_height S = min (max (uint height) 3) (surface_h surface - sp_y S - 1)"
    "sp_nb_bars_max S = (sp_width S * 3 div 3 + 1) div 4"
    "sp_nb_bars S = min (uint nb_bars) (sp_nb_bars_max S)"
    "sp_filled S = sp_nb_bars S * sp_percentage S div 100"
    unfolding assms(3) spec_bar_layout_def Let_def
    by (simp_all only: spec_layout.select_convs)
  have f: "fits_u16 (sp_nb_bars S)" "fits_u16 (sp_filled S)"
    using cs(1) by (simp_all add: layout_fits_def)
  have le: "sp_filled S \<le> sp_nb_bars S"
  proof -
    have n0: "0 \<le> sp_nb_bars S" using f by (simp add: fits_u16_def)
    have "sp_nb_bars S * sp_percentage S \<le> sp_nb_bars S * 100"
      using n0 fields(1) by (intro mult_left_mono) simp_all
    then have "sp_nb_bars S * sp_percentage S div 100 \<le> sp_nb_bars S * 100 div 100"
      by (rule zdiv_mono1) simp
    then show ?thesis using fields(8) by simp
  qed
  have u: "uint (nb_full_bars (to_bar_layout S)) = sp_filled S"
    "uint (bar_nb_bars (to_bar_layout S)) = sp_nb_bars S"
    using f by (simp_all add: to_bar_layout_def uint16_of_int)
  have draw: "draw_progress_bar surface x y width height percentage nb_bars =
      (if sp_nb_bars S = 0 then Inl DivisionByZero
       else Inr (concat (map (full_bar (to_bar_layout S)) [0..sp_filled S - 1])
                 @ concat (map (empty_bar (to_bar_layout S))
                             [0..sp_nb_bars S - sp_filled S - 1])))"
    by (simp add: draw_progress_bar_def cs(2) full_bars_from_upto empty_bars_from_upto u)
  have round: "sp_filled S = sp_percentage S div step"
    if "0 < step \<and> step dvd 100 \<and> step dvd sp_percentage S \<and> sp_nb_bars S = 100 div step"
    for step
    using that filled_at_multiples [of step "sp_percentage S"] fields(8) by simp
  have "sp_width S \<le> surface_w surface - sp_x S - 1"
    "sp_height S \<le> surface_h surface - sp_y S - 1"
    by (simp_all only: fields(4,5) min.cobounded2)
  then have b: "sp_x S \<le> surface_w surface - 1" "sp_y S \<le> surface_h surface - 1"
    "sp_x S + sp_width S \<le> surface_w surface - 1"
    "sp_y S + sp_height S \<le> surface_h surface - 1"
    by (simp_all add: fields(2,3))
  show ?thesis
    using cs(1) fields(1,6,7,8) b le draw round by blast
qed

lemma upto_from_0_1 [simp]:
  "[0..numeral n] = 0 # [1..numeral n]" "[1..numeral n] = 1 # [2..numeral n]"
  by (simp_all add: upto_rec1)

lemma spec_bar_layout_volume_40:
  "spec_bar_layout screen_240 70 128 100 20 40 10 =
     \<lparr>sp_percentage = 40, sp_x = 70, sp_y = 128, sp_width = 100, sp_height = 20,
      sp_nb_bars_max = 25, sp_nb_bars = 10, sp_bar_width = 8, sp_bar_padding = 2,
      sp_filled = 4\<rparr>"
  by (simp add: spec_bar_layout_def screen_240_def)

text \<open>Between two steps the code truncates: 55 per cent of ten bars is five bars.\<close>

lemma filled_bars_truncate:
  "sp_filled (spec_bar_layout screen_240 70 128 100 20 55 10) = 5"
  by (simp add: spec_bar_layout_def screen_240_def)

text \<open>
  The volume bar of the 240 by 240 screen at 40 per cent with ten bars: four solid
  bars, then six hollow ones.
\<close>

theorem draw_progress_bar_layout_witness:
  "1 \<le> surface_w screen_240 \<and> 1 \<le> surface_h screen_240
   \<and> draw_progress_bar screen_240 70 128 100 20 40 10 =
       Inr [(\<lparr>rect_x = 70, rect_y = 128, rect_w = 8, rect_h = 20\<rparr>, GRAY_MAIN),
            (\<lparr>rect_x = 80, rect_y = 128, rect_w = 8, rect_h = 20\<rparr>, GRAY_MAIN),
            (\<lparr>rect_x = 90, rect_y = 128, rect_w = 8, rect_h = 20\<rparr>, GRAY_MAIN),
            (\<lparr>rect_x = 100, rect_y = 128, rect_w = 8, rect_h = 20\<rparr>, GRAY_MAIN),
            (\<lparr>rect_x = 110, rect_y = 128, rect_w = 8, rect_h = 20\<rparr>, GRAY_MAIN),
            (\<lparr>rect_x = 111, rect_y = 129, rect_w = 6, rect_h = 18\<rparr>, WHITE_MAIN),
            (\<lparr>rect_x = 120, rect_y = 128, rect_w = 8, rect_h = 20\<rparr>, GRAY_MAIN),
            (\<lparr>rect_x = 121, rect_y = 129, rect_w = 6, rect_h = 18\<rparr>, WHITE_MAIN),
            (\<lparr>rect_x = 130, rect_y = 128, rect_w = 8, rect_h = 20\<rparr>, GRAY_MAIN),
            (\<lparr>rect_x = 131, rect_y = 129, rect_w = 6, rect_h = 18\<rparr>, WHITE_MAIN),
            (\<lparr>rect_x = 140, rect_y = 128, rect_w = 8, rect_h = 20\<rparr>, GRAY_MAIN),
            (\<lparr>rect_x = 141, rect_y = 129, rect_w = 6, rect_h = 18\<rparr>, WHITE_MAIN),
            (\<lparr>rect_x = 150, rect_y = 128, rect_w = 8, rect_h = 20\<rparr>, GRAY_MAIN),
            (\<lparr>rect_x = 151, rect_y = 129, rect_w = 6, rect_h = 18\<rparr>, WHITE_MAIN),
            (\<lparr>rect_x = 160, rect_y = 128, rect_w = 8, rect_h = 20\<rparr>, GRAY_MAIN),
            (\<lparr>rect_x = 161, rect_y = 129, rect_w = 6, rect_h = 18\<rparr>, WHITE_MAIN)]"
proof -
  have h: "1 \<le> surface_w screen_240" "1 \<le> surface_h screen_240"
    by (simp_all add: screen_240_def)
  have S: "\<lparr>sp_percentage = 40, sp_x = 70, sp_y = 128, sp_width = 100, sp_height = 20,
      sp_nb_bars_max = 25, sp_nb_bars = 10, sp_bar_width = 8, sp_bar_padding = 2,
      sp_filled = 4\<rparr> = spec_bar_layout screen_240 (uint (70 :: 16 word)) (uint (128 :: 16 word))
         (uint (100 :: 16 word)) (uint (20 :: 16 word)) (uint (40 :: 8 word))
         (uint (10 :: 16 word))"
    by (simp add: spec_bar_layout_volume_40)
  show ?thesis
    using h draw_progress_bar_layout [OF h S]
    by (simp add: to_bar_layout_def full_bar_def empty_bar_def line_width_def)
qed

end
